theory Spec2Isabelle
  imports Complex_Main "HOL-Library.Sublist"
begin

section \<open>Python strings\<close>

text \<open>
  A Python \<open>str\<close> is a sequence of Unicode code points. The reply stage looks at
  single characters outside ASCII (the fullwidth comma and colon), so a string is a
  list of code points and not a list of bytes. \<open>u\<close> turns an ASCII literal into
  such a string.
\<close>

type_synonym uchar = nat
type_synonym ustring = "uchar list"

definition u :: "string \<Rightarrow> ustring" where
  "u s = map of_char s"

text \<open>
  \<open>str.strip()\<close> and \<open>str.lstrip()\<close> without argument remove the characters for
  which \<open>str.isspace\<close> holds: U+0009..U+000D, U+001C..U+0020, U+0085, U+00A0,
  U+1680, U+2000..U+200A, U+2028, U+2029, U+202F, U+205F and U+3000.
\<close>

definition isspace :: "uchar \<Rightarrow> bool" where
  "isspace c \<longleftrightarrow>
     (9 \<le> c \<and> c \<le> 13) \<or> (28 \<le> c \<and> c \<le> 32) \<or> c = 133 \<or> c = 160 \<or> c = 5760 \<or>
     (8192 \<le> c \<and> c \<le> 8202) \<or> c = 8232 \<or> c = 8233 \<or> c = 8239 \<or> c = 8287 \<or>
     c = 12288"

definition lstrip :: "ustring \<Rightarrow> ustring" where
  "lstrip s = dropWhile isspace s"

definition rstrip :: "ustring \<Rightarrow> ustring" where
  "rstrip s = rev (dropWhile isspace (rev s))"

definition strip :: "ustring \<Rightarrow> ustring" where
  "strip s = rstrip (lstrip s)"

text \<open>\<open>needle in text\<close> on strings: \<open>needle\<close> occurs as a contiguous piece.\<close>

fun contains :: "ustring \<Rightarrow> ustring \<Rightarrow> bool" where
  "contains needle [] = (needle = [])"
| "contains needle (c # cs) = (prefix needle (c # cs) \<or> contains needle cs)"

text \<open>
  \<open>str.lower()\<close> is a function of the Python library. On a string of ASCII
  characters it maps \<open>A..Z\<close> to \<open>a..z\<close> and leaves the rest alone; on other strings it
  applies the Unicode case mapping, which is not part of the repository and is taken as
  the parameter \<open>ul\<close>. Every statement below holds for every \<open>ul\<close>.
\<close>

definition ascii_lower :: "uchar \<Rightarrow> uchar" where
  "ascii_lower c = (if 65 \<le> c \<and> c \<le> 90 then c + 32 else c)"

definition lower :: "(ustring \<Rightarrow> ustring) \<Rightarrow> ustring \<Rightarrow> ustring" where
  "lower ul s = (if list_all (\<lambda>c. c < 128) s then map ascii_lower s else ul s)"

section \<open>Reply stage: the mention guard\<close>

text \<open>
  \<open>_consume_leading_duplicate_mention(buffered_text, target_name)\<close> of
  \<open>services/agent_reply.py\<close>. The result is the pair (resolved, text to forward).
  The code points 64, 44, 58, 65292 and 65306 are \<open>@\<close>, the comma, the colon, the
  fullwidth comma and the fullwidth colon.
\<close>

definition consume_leading_duplicate_mention :: "ustring \<Rightarrow> ustring \<Rightarrow> bool \<times> ustring" where
  "consume_leading_duplicate_mention buffered_text target_name =
     (let trimmed = lstrip buffered_text in
      if trimmed = [] then (False, [])
      else
        let expected = 64 # target_name in
        if prefix trimmed expected \<and> length trimmed < length expected then (False, [])
        else if prefix expected trimmed then
          (let remainder = lstrip (drop (length expected) trimmed) in
           if take 1 remainder \<in> set [[44], [65292], [58], [65306]]
           then (True, lstrip (drop 1 remainder))
           else (True, remainder))
        else (True, buffered_text))"


section \<open>Exceptions, decisions, events\<close>

text \<open>
  \<open>asyncio.CancelledError\<close> is a \<open>BaseException\<close> and is not caught by
  \<open>except Exception\<close>; every other failure is an \<open>Exception\<close>, of which the code
  reads only \<open>str(exc)\<close>.
\<close>

datatype exc = CancelledError | Exception ustring

text \<open>\<open>is_transient_timeout_error\<close> of \<open>utils/common.py\<close>, on \<open>str(exc)\<close>.\<close>

definition is_transient_timeout_error :: "(ustring \<Rightarrow> ustring) \<Rightarrow> ustring \<Rightarrow> bool" where
  "is_transient_timeout_error ul exc_text =
     (let text = lower ul exc_text in
      contains (u ''timeout'') text
      \<or> contains (u ''deadline exceeded'') text
      \<or> contains (u ''awaiting headers'') text)"

datatype agent_action = SILENT | REPLY_USER | REPLY_AI | COMMENT

text \<open>
  \<open>AgentDecision\<close> of \<open>domain/schemas.py\<close>, without \<open>confidence\<close>, which no
  code modelled here reads.
\<close>

record agent_decision =
  action :: agent_action
  reason :: "ustring option"
  target_message_id :: "string option"
  target_author_name :: "ustring option"
  stance :: "ustring option"
  key_points :: "ustring option"

definition silent_decision :: agent_decision where
  "silent_decision = \<lparr>action = SILENT, reason = None, target_message_id = None,
     target_author_name = None, stance = None, key_points = None\<rparr>"

text \<open>\<open>x or ""\<close> on an optional string.\<close>

definition or_empty :: "ustring option \<Rightarrow> ustring" where
  "or_empty x = (case x of None \<Rightarrow> [] | Some s \<Rightarrow> s)"

text \<open>
  The calls of \<open>emit\<close>, with the message id and the text each one carries. The sink is
  called with \<open>message_started\<close>, \<open>message_delta\<close>, \<open>message_completed\<close>,
  \<open>message_cancelled\<close>, \<open>error\<close>, \<open>status\<close>, \<open>session_ended\<close> and
  \<open>runtime_started\<close>.
\<close>

datatype event =
    MessageStarted string
  | MessageDelta string ustring
  | MessageCompleted string ustring
  | MessageCancelled string ustring
  | ErrorEvent string ustring
  | Status agent_action
  | SessionEnded string
  | RuntimeStarted

section \<open>Reply stage: \<open>generate_agent_reply\<close>\<close>

text \<open>
  What the outside does during one run of the reply stage:
  \<^item> \<open>astream n\<close> is the \<open>n\<close>-th call of \<open>agent.astream\<close>: the token texts it
    yields (after \<open>_extract_token_text\<close>) and how it ends, \<open>None\<close> when the stream is
    exhausted, \<open>Some e\<close> when fetching the next item raises \<open>e\<close> (a cancellation
    delivered while the task waits for a token is \<open>Some CancelledError\<close>);
  \<^item> \<open>cancel_at_emit = Some k\<close>: a cancellation is delivered while the task is
    suspended in its \<open>k\<close>-th call of \<open>emit\<close>, counted from 0;
  \<^item> \<open>cancel_in_sleep\<close>: a cancellation is delivered during the sleep before the
    retry;
  \<^item> \<open>cancel_in_notify\<close>: a cancellation is delivered while the orchestrator, after
    the reply stage has returned, waits for the condition lock in
    \<open>_notify_new_message\<close>.
  Rendering the prompt and building the chat agent are taken to succeed.
\<close>

record reply_env =
  astream :: "nat \<Rightarrow> ustring list \<times> exc option"
  cancel_at_emit :: "nat option"
  cancel_in_sleep :: bool
  cancel_in_notify :: bool

text \<open>
  The local variables of the run, the \<open>_generation_output_started\<close> flag set by
  \<open>mark_output_started\<close>, the calls of \<open>emit\<close> in order, and the number of calls of
  \<open>agent.astream\<close>.
\<close>

record reply_state =
  full_content :: ustring
  mention_guard_resolved :: bool
  mention_guard_buffer :: ustring
  output_started :: bool
  emitted :: "event list"
  astream_calls :: nat

text \<open>
  \<open>await emit(...)\<close>: the call is made, and the await raises when the cancellation is
  delivered there.
\<close>

definition emit :: "reply_env \<Rightarrow> event \<Rightarrow> reply_state \<Rightarrow> exc option \<times> reply_state" where
  "emit env ev st =
     (if cancel_at_emit env = Some (length (emitted st)) then Some CancelledError else None,
      st\<lparr>emitted := emitted st @ [ev]\<rparr>)"

text \<open>
  Lines 165-172 for one non-empty token: the state after the guard, the text to
  forward, and whether the loop goes on to the next token without output.
\<close>

definition guard_token :: "ustring \<Rightarrow> ustring \<Rightarrow> reply_state \<Rightarrow> reply_state \<times> ustring \<times> bool" where
  "guard_token mention_target_name token st =
     (if \<not> mention_guard_resolved st \<and> mention_target_name \<noteq> [] then
        (let buf = mention_guard_buffer st @ token;
             r = consume_leading_duplicate_mention buf mention_target_name
         in (st\<lparr>mention_guard_buffer := buf, mention_guard_resolved := fst r\<rparr>, snd r, \<not> fst r))
      else (st, token, False))"

text \<open>The body of \<open>async for item in agent.astream(...)\<close>, over the tokens yielded.\<close>

fun consume_stream ::
  "reply_env \<Rightarrow> string \<Rightarrow> ustring \<Rightarrow> ustring list \<Rightarrow> reply_state \<Rightarrow> exc option \<times> reply_state" where
  "consume_stream env mid name [] st = (None, st)"
| "consume_stream env mid name (token # rest) st =
     (if token = [] then consume_stream env mid name rest st
      else
        (case guard_token name token st of (st1, token_to_emit, skip) \<Rightarrow>
           if skip then consume_stream env mid name rest st1
           else if token_to_emit = [] then
             consume_stream env mid name rest (st1\<lparr>output_started := True\<rparr>)
           else
             (case emit env (MessageDelta mid token_to_emit)
                     (st1\<lparr>output_started := True,
                          full_content := full_content st1 @ token_to_emit\<rparr>) of
                (Some e, st2) \<Rightarrow> (Some e, st2)
              | (None, st2) \<Rightarrow> consume_stream env mid name rest st2)))"

text \<open>
  One pass of the \<open>try\<close> inside the \<open>for\<close> loop (lines 156-198): the stream, then the
  flush of an unresolved guard buffer. \<open>None\<close> is the \<open>break\<close>.
\<close>

definition run_attempt ::
  "reply_env \<Rightarrow> string \<Rightarrow> ustring \<Rightarrow> nat \<Rightarrow> reply_state \<Rightarrow> exc option \<times> reply_state" where
  "run_attempt env mid name attempt st =
     (case consume_stream env mid name (fst (astream env attempt))
             (st\<lparr>astream_calls := astream_calls st + 1\<rparr>) of
        (Some e, st1) \<Rightarrow> (Some e, st1)
      | (None, st1) \<Rightarrow>
          (case snd (astream env attempt) of
             Some e \<Rightarrow> (Some e, st1)
           | None \<Rightarrow>
               if \<not> mention_guard_resolved st1 \<and> mention_guard_buffer st1 \<noteq> [] then
                 (case emit env (MessageDelta mid (mention_guard_buffer st1))
                         (st1\<lparr>output_started := True,
                              full_content := full_content st1 @ mention_guard_buffer st1\<rparr>) of
                    (Some e, st2) \<Rightarrow> (Some e, st2)
                  | (None, st2) \<Rightarrow> (None, st2\<lparr>mention_guard_resolved := True\<rparr>))
               else (None, st1)))"

definition max_attempts :: nat where
  "max_attempts = 2"

text \<open>
  \<open>for attempt in range(max_attempts)\<close> with its \<open>except Exception\<close> (lines 154-214):
  the result is the exception that leaves the loop, if any.
\<close>

function stream_with_retry ::
  "(ustring \<Rightarrow> ustring) \<Rightarrow> reply_env \<Rightarrow> string \<Rightarrow> ustring \<Rightarrow> nat \<Rightarrow> reply_state
     \<Rightarrow> exc option \<times> reply_state" where
  "stream_with_retry ul env mid name attempt st =
     (if max_attempts \<le> attempt then (None, st)
      else
        (case run_attempt env mid name attempt st of
           (None, st1) \<Rightarrow> (None, st1)
         | (Some CancelledError, st1) \<Rightarrow> (Some CancelledError, st1)
         | (Some (Exception t), st1) \<Rightarrow>
             (let is_timeout = is_transient_timeout_error ul t;
                  no_output_yet = (strip (full_content st1) = [])
              in if is_timeout \<and> no_output_yet \<and> attempt < max_attempts - 1 then
                   (if cancel_in_sleep env then (Some CancelledError, st1)
                    else stream_with_retry ul env mid name (attempt + 1) st1)
                 else (Some (Exception t), st1))))"
  by pat_completeness auto
termination
  by (relation "measure (\<lambda>(ul, env, mid, name, attempt, st). max_attempts - attempt)") auto

text \<open>
  \<open>generate_agent_reply\<close>: \<open>Inr (message_id, full_content)\<close> when it returns,
  \<open>Inl e\<close> when \<open>e\<close> leaves it. \<open>mid\<close> is the fresh \<open>uuid4\<close>.
\<close>

definition mention_target :: "agent_decision \<Rightarrow> ustring" where
  "mention_target decision =
     (if action decision = REPLY_AI \<and> or_empty (target_author_name decision) \<noteq> []
      then or_empty (target_author_name decision) else [])"

definition mention_prefix_of :: "ustring \<Rightarrow> ustring" where
  "mention_prefix_of mention_target_name =
     (if mention_target_name = [] then [] else 64 # mention_target_name @ [32])"

definition reply_state0 :: reply_state where
  "reply_state0 = \<lparr>full_content = [], mention_guard_resolved = False,
     mention_guard_buffer = [], output_started = False, emitted = [], astream_calls = 0\<rparr>"

definition generate_agent_reply ::
  "(ustring \<Rightarrow> ustring) \<Rightarrow> reply_env \<Rightarrow> string \<Rightarrow> agent_decision
     \<Rightarrow> (exc + string \<times> ustring) \<times> reply_state" where
  "generate_agent_reply ul env mid decision =
     (case emit env (MessageStarted mid) reply_state0 of
        (Some e, st1) \<Rightarrow> (Inl e, st1)
      | (None, st1) \<Rightarrow>
          (let mention_target_name = mention_target decision;
               mention_prefix = mention_prefix_of mention_target_name;
               st2 = st1\<lparr>full_content := mention_prefix\<rparr>
           in
           (case (if mention_prefix \<noteq> []
                  then emit env (MessageDelta mid mention_prefix) (st2\<lparr>output_started := True\<rparr>)
                  else (None, st2)) of
              (Some e, st3) \<Rightarrow> (Inl e, st3)
            | (None, st3) \<Rightarrow>
                (case stream_with_retry ul env mid mention_target_name 0
                        (st3\<lparr>mention_guard_resolved := (mention_target_name = [])\<rparr>) of
                   (None, st4) \<Rightarrow> (Inr (mid, full_content st4), st4)
                 | (Some CancelledError, st4) \<Rightarrow>
                     (Inl CancelledError,
                      snd (emit env (MessageCancelled mid (full_content st4)) st4))
                 | (Some (Exception t), st4) \<Rightarrow>
                     (case emit env (ErrorEvent mid t) st4 of
                        (Some e, st5) \<Rightarrow> (Inl e, st5)
                      | (None, st5) \<Rightarrow> (Inr (mid, full_content st5), st5))))))"


section \<open>The orchestrator\<close>

text \<open>
  \<open>ChatMessage\<close>, \<open>AgentState\<close> and \<open>SessionOrchestrator\<close> of
  \<open>services/orchestrator.py\<close>, and \<open>SessionConfig\<close> of \<open>config/settings.py\<close>.
  Times are the seconds of \<open>time.time()\<close>, taken as real numbers. Of \<open>AgentInfo\<close>
  only \<open>id\<close> and \<open>nickname\<close> are read here.
\<close>

record chat_message =
  msg_id :: string
  author_type :: string
  author_id :: "string option"
  author_name :: ustring
  content :: ustring
  msg_target_message_id :: "string option"
  msg_target_author_name :: "ustring option"

record agent_info =
  agent_id :: string
  nickname :: ustring

record agent_state =
  info :: agent_info
  last_spoke_at :: real
  last_seen_message_version :: int

record session_config =
  agent_cooldown_seconds :: real
  global_speak_interval_seconds :: real
  silence_end_seconds :: int
  max_total_ai_messages :: int
  pause_timeout_seconds :: int

text \<open>
  Every worker holds a reference to its own \<open>AgentState\<close> object; the store \<open>agents\<close>
  maps the number of a worker to that object. The task sets hold the numbers of the
  workers whose decision or generation task is registered; \<open>events\<close> are the calls of
  \<open>emit\<close>. The tasks, the condition and the semaphore themselves are not part of the
  state.
\<close>

record orchestrator =
  agents :: "nat \<Rightarrow> agent_state"
  messages :: "chat_message list"
  events :: "event list"
  decision_tasks :: "nat set"
  generation_tasks :: "nat set"
  message_version :: int
  runtime_started :: bool
  ended :: bool
  end_reason :: "string option"
  pending_decisions :: int
  started_at :: real
  last_activity_at :: real
  last_global_speak_at :: real
  total_ai_messages :: int
  recent_key_points :: "ustring list"
  generation_paused :: bool
  paused_since :: "real option"

text \<open>
  The orchestrator that \<open>create_orchestrator\<close> builds: the defaults of the dataclass
  and one \<open>AgentState\<close> per agent.
\<close>

definition new_agent_state :: "agent_info \<Rightarrow> agent_state" where
  "new_agent_state i = \<lparr>info = i, last_spoke_at = 0, last_seen_message_version = 0\<rparr>"

definition create_orchestrator :: "(nat \<Rightarrow> agent_info) \<Rightarrow> orchestrator" where
  "create_orchestrator infos =
     \<lparr>agents = (\<lambda>i. new_agent_state (infos i)), messages = [], events = [],
      decision_tasks = {}, generation_tasks = {}, message_version = 0,
      runtime_started = False, ended = False, end_reason = None, pending_decisions = 0,
      started_at = 0, last_activity_at = 0, last_global_speak_at = 0,
      total_ai_messages = 0, recent_key_points = [], generation_paused = False,
      paused_since = None\<rparr>"

definition add_message :: "chat_message \<Rightarrow> orchestrator \<Rightarrow> orchestrator" where
  "add_message msg st =
     st\<lparr>messages := messages st @ [msg], message_version := message_version st + 1\<rparr>"

definition start_runtime :: "real \<Rightarrow> orchestrator \<Rightarrow> orchestrator" where
  "start_runtime now st =
     (if runtime_started st \<or> ended st then st
      else st\<lparr>runtime_started := True, started_at := now, last_activity_at := now,
              events := events st @ [RuntimeStarted]\<rparr>)"

text \<open>
  \<open>stop(force)\<close>: the pause fields. The cancellations it requests reach the tasks as
  the \<open>CancelledError\<close> of their environments.
\<close>

definition stop :: "bool \<Rightarrow> real \<Rightarrow> orchestrator \<Rightarrow> orchestrator" where
  "stop force now st =
     (if force then
        st\<lparr>generation_paused := True,
           paused_since := (if paused_since st = None then Some now else paused_since st)\<rparr>
      else st)"

text \<open>Lines 116-119 of \<open>handle_new_message\<close>: a user turn clears the pause.\<close>

definition clear_pause :: "chat_message \<Rightarrow> orchestrator \<Rightarrow> orchestrator" where
  "clear_pause msg st =
     (if author_type msg = ''user''
      then st\<lparr>generation_paused := False, paused_since := None\<rparr> else st)"

text \<open>Lines 121-122 of \<open>handle_new_message\<close>.\<close>

definition append_incoming :: "chat_message \<Rightarrow> real \<Rightarrow> orchestrator \<Rightarrow> orchestrator" where
  "append_incoming msg now st = (add_message msg st)\<lparr>last_activity_at := now\<rparr>"

text \<open>
  \<open>handle_new_message\<close> as a whole, when no other task runs at its awaits; \<open>t0\<close>,
  \<open>t1\<close> and \<open>t2\<close> are the three readings of the clock.
\<close>

definition handle_new_message ::
  "chat_message \<Rightarrow> real \<Rightarrow> real \<Rightarrow> real \<Rightarrow> orchestrator \<Rightarrow> orchestrator" where
  "handle_new_message msg t0 t1 t2 st =
     (let st1 = start_runtime t0 st;
          st2 = (if author_type msg = ''user'' then stop False t1 (clear_pause msg st1) else st1)
      in append_incoming msg t2 st2)"

definition shutdown :: "string \<Rightarrow> bool \<Rightarrow> real \<Rightarrow> orchestrator \<Rightarrow> orchestrator" where
  "shutdown reason_str emit_event now st =
     (if ended st then st
      else
        (let st1 = stop True now (st\<lparr>ended := True, end_reason := Some reason_str\<rparr>)
         in if emit_event then st1\<lparr>events := events st1 @ [SessionEnded reason_str]\<rparr>
            else st1))"

text \<open>
  \<open>_wait_for_new_message\<close>. The wait returns without timeout only when its predicate
  holds; \<open>timed_out\<close> says that the second ran out first.
\<close>

definition wait_for_new_message :: "nat \<Rightarrow> bool \<Rightarrow> orchestrator \<Rightarrow> bool \<times> orchestrator" where
  "wait_for_new_message i timed_out st =
     (let observed = last_seen_message_version (agents st i) in
      if timed_out \<or> \<not> (ended st \<or> message_version st > observed) then (False, st)
      else if ended st then (False, st)
      else (True, st\<lparr>agents := (agents st)
              (i := (agents st i)\<lparr>last_seen_message_version := message_version st\<rparr>)\<rparr>))"

subsection \<open>Pacing\<close>

text \<open>\<open>deque(maxlen=n).append(x)\<close>: a full deque drops from the left.\<close>

definition deque_append :: "nat \<Rightarrow> 'a \<Rightarrow> 'a list \<Rightarrow> 'a list" where
  "deque_append maxlen x xs = (let ys = xs @ [x] in drop (length ys - maxlen) ys)"

definition normalized_key_points :: "(ustring \<Rightarrow> ustring) \<Rightarrow> agent_decision \<Rightarrow> ustring" where
  "normalized_key_points ul decision = lower ul (strip (or_empty (key_points decision)))"

definition approve_speech ::
  "(ustring \<Rightarrow> ustring) \<Rightarrow> session_config \<Rightarrow> nat \<Rightarrow> agent_decision \<Rightarrow> real \<Rightarrow> orchestrator
     \<Rightarrow> bool \<times> orchestrator" where
  "approve_speech ul cfg i decision now st =
     (if now - last_spoke_at (agents st i) < agent_cooldown_seconds cfg then (False, st)
      else if global_speak_interval_seconds cfg > 0
              \<and> now - last_global_speak_at st < global_speak_interval_seconds cfg
           then (False, st)
      else if max_total_ai_messages cfg > 0
              \<and> total_ai_messages st \<ge> max_total_ai_messages cfg
           then (False, st)
      else
        (let kp = normalized_key_points ul decision in
         if kp \<noteq> [] \<and> kp \<in> set (recent_key_points st) then (False, st)
         else
           (True,
            st\<lparr>last_global_speak_at := now,
               recent_key_points :=
                 (if kp \<noteq> [] then deque_append 8 kp (recent_key_points st)
                  else recent_key_points st)\<rparr>)))"


subsection \<open>The reply of an agent\<close>

text \<open>
  \<open>_generate_reply\<close>: the reply stage, then lines 352-366 with no await between the
  append and the update of \<open>last_spoke_at\<close>, then the two awaits that follow. \<open>now\<close>
  is the clock read at line 363.
\<close>

definition generate_reply ::
  "(ustring \<Rightarrow> ustring) \<Rightarrow> reply_env \<Rightarrow> string \<Rightarrow> real \<Rightarrow> nat \<Rightarrow> agent_decision
     \<Rightarrow> orchestrator \<Rightarrow> (exc + string) \<times> orchestrator" where
  "generate_reply ul env mid now i decision st =
     (case generate_agent_reply ul env mid decision of
        (Inl e, rs) \<Rightarrow> (Inl e, st\<lparr>events := events st @ emitted rs\<rparr>)
      | (Inr (message_id, full), rs) \<Rightarrow>
          (let st1 = add_message
                 \<lparr>msg_id = message_id, author_type = ''ai'',
                  author_id = Some (agent_id (info (agents st i))),
                  author_name = nickname (info (agents st i)), content = full,
                  msg_target_message_id = target_message_id decision,
                  msg_target_author_name = target_author_name decision\<rparr>
                 (st\<lparr>events := events st @ emitted rs\<rparr>);
               st2 = st1\<lparr>last_activity_at := now,
                        total_ai_messages := total_ai_messages st1 + 1,
                        agents := (agents st1)(i := (agents st1 i)\<lparr>last_spoke_at := now\<rparr>)\<rparr>
           in if cancel_in_notify env then (Inl CancelledError, st2)
              else
                (if cancel_at_emit env = Some (length (emitted rs)) then Inl CancelledError
                 else Inr message_id,
                 st2\<lparr>events := events st2 @ [MessageCompleted message_id full]\<rparr>)))"

subsection \<open>The worker of an agent, between its awaits\<close>

text \<open>Lines 183-206: the decision task is registered.\<close>

definition begin_decision :: "nat \<Rightarrow> orchestrator \<Rightarrow> orchestrator" where
  "begin_decision i st =
     st\<lparr>pending_decisions := pending_decisions st + 1,
        decision_tasks := insert i (decision_tasks st)\<rparr>"

text \<open>
  Lines 207-229, given what \<open>decide_agent_action\<close> did: \<open>None\<close> when the worker
  goes back to waiting, else the decision it goes on with.
\<close>

definition end_decision ::
  "nat \<Rightarrow> exc + agent_decision \<Rightarrow> orchestrator \<Rightarrow> agent_decision option \<times> orchestrator" where
  "end_decision i outcome st =
     (let st1 = st\<lparr>decision_tasks := decision_tasks st - {i},
                   pending_decisions := max 0 (pending_decisions st - 1)\<rparr>
      in case outcome of
           Inl CancelledError \<Rightarrow> (None, st1)
         | Inl (Exception t) \<Rightarrow>
             (Some silent_decision, st1\<lparr>events := events st1 @ [Status SILENT]\<rparr>)
         | Inr decision \<Rightarrow>
             (Some decision, st1\<lparr>events := events st1 @ [Status (action decision)]\<rparr>))"

text \<open>
  Lines 231-240: \<open>True\<close> when the generation task has been created and registered.
\<close>

definition try_speak ::
  "(ustring \<Rightarrow> ustring) \<Rightarrow> session_config \<Rightarrow> nat \<Rightarrow> agent_decision \<Rightarrow> real \<Rightarrow> orchestrator
     \<Rightarrow> bool \<times> orchestrator" where
  "try_speak ul cfg i decision now st =
     (if action decision = SILENT then (False, st)
      else if generation_paused st then (False, st)
      else
        (case approve_speech ul cfg i decision now st of
           (False, st1) \<Rightarrow> (False, st1)
         | (True, st1) \<Rightarrow> (True, st1\<lparr>generation_tasks := insert i (generation_tasks st1)\<rparr>)))"

text \<open>
  Lines 241-247: the generation task runs to its end; a cancellation is logged and
  the task is removed from the set.
\<close>

definition run_generation ::
  "(ustring \<Rightarrow> ustring) \<Rightarrow> reply_env \<Rightarrow> string \<Rightarrow> real \<Rightarrow> nat \<Rightarrow> agent_decision
     \<Rightarrow> orchestrator \<Rightarrow> orchestrator" where
  "run_generation ul env mid now i decision st =
     (let st1 = snd (generate_reply ul env mid now i decision st)
      in st1\<lparr>generation_tasks := generation_tasks st1 - {i}\<rparr>)"

subsection \<open>The lifecycle monitor\<close>

text \<open>
  One pass of the loop of \<open>_monitor_lifecycle\<close> after its sleep; \<open>now\<close> is the clock
  read at line 293 and \<open>t_stop\<close> the one read by \<open>stop\<close> inside \<open>shutdown\<close>.
\<close>

definition monitor_tick :: "session_config \<Rightarrow> real \<Rightarrow> real \<Rightarrow> orchestrator \<Rightarrow> orchestrator" where
  "monitor_tick cfg now t_stop st =
     (if max_total_ai_messages cfg > 0 \<and> total_ai_messages st \<ge> max_total_ai_messages cfg
      then shutdown ''max_total_ai_messages'' True t_stop st
      else if generation_paused st then
        (case paused_since st of
           None \<Rightarrow> st
         | Some since \<Rightarrow>
             if pause_timeout_seconds cfg > 0
                \<and> now - since \<ge> real_of_int (pause_timeout_seconds cfg)
             then shutdown ''pause_timeout'' True t_stop st
             else st)
      else if now - last_activity_at st \<ge> real_of_int (silence_end_seconds cfg)
              \<and> generation_tasks st = {} \<and> pending_decisions st = 0
           then shutdown ''silence_timeout'' True t_stop st
      else st)"

subsection \<open>Executions\<close>

text \<open>
  The tasks of a session interleave at their awaits. An execution is a sequence of the
  pieces of code that run between two awaits, each with what it reads from outside (the
  clock, the outcome of a call).
\<close>

datatype op =
    StartRuntime real
  | ClearPause chat_message
  | Stop bool real
  | AppendIncoming chat_message real
  | Shutdown string bool real
  | Wait nat bool
  | BeginDecision nat
  | EndDecision nat "exc + agent_decision"
  | TrySpeak nat agent_decision real
  | RunGeneration nat agent_decision reply_env string real
  | MonitorTick real real

fun step :: "(ustring \<Rightarrow> ustring) \<Rightarrow> session_config \<Rightarrow> op \<Rightarrow> orchestrator \<Rightarrow> orchestrator" where
  "step ul cfg (StartRuntime now) st = start_runtime now st"
| "step ul cfg (ClearPause msg) st = clear_pause msg st"
| "step ul cfg (Stop force now) st = stop force now st"
| "step ul cfg (AppendIncoming msg now) st = append_incoming msg now st"
| "step ul cfg (Shutdown r emit_event now) st = shutdown r emit_event now st"
| "step ul cfg (Wait i timed_out) st = snd (wait_for_new_message i timed_out st)"
| "step ul cfg (BeginDecision i) st = begin_decision i st"
| "step ul cfg (EndDecision i outcome) st = snd (end_decision i outcome st)"
| "step ul cfg (TrySpeak i decision now) st = snd (try_speak ul cfg i decision now st)"
| "step ul cfg (RunGeneration i decision env mid now) st =
     run_generation ul env mid now i decision st"
| "step ul cfg (MonitorTick now t_stop) st = monitor_tick cfg now t_stop st"

definition run :: "(ustring \<Rightarrow> ustring) \<Rightarrow> session_config \<Rightarrow> op list \<Rightarrow> orchestrator \<Rightarrow> orchestrator" where
  "run ul cfg ops st = fold (step ul cfg) ops st"

section \<open>Decision stage: \<open>decide_agent_action\<close>\<close>

text \<open>
  What the \<open>n\<close>-th pass of the loop meets: \<open>ainvoke n\<close> is the outcome of entering the
  semaphore and calling \<open>agent.ainvoke\<close> (a structured response, a result without
  one, or an exception, the cancellation included), and \<open>sleep_cancelled n\<close> says that
  a cancellation is delivered during the backoff sleep of that pass.
\<close>

datatype invoke_outcome = Structured agent_decision | NoStructured | Raises exc

record decision_env =
  ainvoke :: "nat \<Rightarrow> invoke_outcome"
  sleep_cancelled :: "nat \<Rightarrow> bool"

text \<open>What the stage does, in order: calls of \<open>ainvoke\<close> and sleeps.\<close>

datatype decision_step = Invoke nat | Sleep real

definition decision_max_attempts :: nat where
  "decision_max_attempts = 3"

definition missing_structured_response :: ustring where
  "missing_structured_response = u ''Missing structured_response for AgentDecision''"

text \<open>The \<open>except Exception\<close> of the loop, lines 92-111.\<close>

function decide_loop ::
  "(ustring \<Rightarrow> ustring) \<Rightarrow> decision_env \<Rightarrow> nat \<Rightarrow> decision_step list
     \<Rightarrow> (exc + agent_decision) \<times> decision_step list" where
  "decide_loop ul env attempt tr =
     (if decision_max_attempts \<le> attempt then (Inr silent_decision, tr)
      else
        (let tr1 = tr @ [Invoke attempt];
             failed = (\<lambda>t.
               if is_transient_timeout_error ul t \<and> attempt < decision_max_attempts - 1 then
                 (let delay_seconds = 0.8 * real (attempt + 1);
                      tr2 = tr1 @ [Sleep delay_seconds]
                  in if sleep_cancelled env attempt then (Inl CancelledError, tr2)
                     else decide_loop ul env (attempt + 1) tr2)
               else (Inr silent_decision, tr1))
         in case ainvoke env attempt of
              Structured decision \<Rightarrow> (Inr decision, tr1)
            | NoStructured \<Rightarrow> failed missing_structured_response
            | Raises CancelledError \<Rightarrow> (Inl CancelledError, tr1)
            | Raises (Exception t) \<Rightarrow> failed t))"
  by pat_completeness auto
termination
  by (relation "measure (\<lambda>(ul, env, attempt, tr). decision_max_attempts - attempt)") auto

definition decide_agent_action ::
  "(ustring \<Rightarrow> ustring) \<Rightarrow> decision_env \<Rightarrow> (exc + agent_decision) \<times> decision_step list" where
  "decide_agent_action ul env = decide_loop ul env 0 []"

section \<open>Concrete inputs\<close>

definition example_info :: "nat \<Rightarrow> agent_info" where
  "example_info i = \<lparr>agent_id = ''agent'', nickname = u ''Ann''\<rparr>"

definition example_cfg :: session_config where
  "example_cfg = \<lparr>agent_cooldown_seconds = 10, global_speak_interval_seconds = 0,
     silence_end_seconds = 15, max_total_ai_messages = 3, pause_timeout_seconds = 600\<rparr>"

definition comment_on :: "ustring option \<Rightarrow> agent_decision" where
  "comment_on kp = \<lparr>action = COMMENT, reason = None, target_message_id = None,
     target_author_name = None, stance = None, key_points = kp\<rparr>"

definition pacing_blocked :: "session_config \<Rightarrow> nat \<Rightarrow> real \<Rightarrow> orchestrator \<Rightarrow> bool" where
  "pacing_blocked cfg i now st \<longleftrightarrow>
     now - last_spoke_at (agents st i) < agent_cooldown_seconds cfg
     \<or> (global_speak_interval_seconds cfg > 0
        \<and> now - last_global_speak_at st < global_speak_interval_seconds cfg)
     \<or> (max_total_ai_messages cfg > 0 \<and> total_ai_messages st \<ge> max_total_ai_messages cfg)"

text \<open>Words for the statements about the decision stage, and an environment.\<close>

definition is_invoke :: "decision_step \<Rightarrow> bool" where
  "is_invoke s = (case s of Invoke n \<Rightarrow> True | Sleep d \<Rightarrow> False)"

definition failure_text :: "invoke_outcome \<Rightarrow> ustring option" where
  "failure_text r =
     (case r of
        Structured d \<Rightarrow> None
      | NoStructured \<Rightarrow> Some missing_structured_response
      | Raises CancelledError \<Rightarrow> None
      | Raises (Exception t) \<Rightarrow> Some t)"

definition transient_failure :: "(ustring \<Rightarrow> ustring) \<Rightarrow> invoke_outcome \<Rightarrow> bool" where
  "transient_failure ul r =
     (case failure_text r of None \<Rightarrow> False | Some t \<Rightarrow> is_transient_timeout_error ul t)"

definition timeout_first :: "nat \<Rightarrow> invoke_outcome" where
  "timeout_first n =
     (if n = 0 then Raises (Exception (u ''Request timeout'')) else Structured (comment_on None))"

definition never_cancelled :: "nat \<Rightarrow> bool" where
  "never_cancelled n = False"

definition timeout_then_reply :: decision_env where
  "timeout_then_reply = \<lparr>ainvoke = timeout_first, sleep_cancelled = never_cancelled\<rparr>"

text \<open>Words for the statements about executions, and concrete executions.\<close>

definition appends :: "(ustring \<Rightarrow> ustring) \<Rightarrow> op \<Rightarrow> bool" where
  "appends ul op =
     (case op of
        AppendIncoming msg now \<Rightarrow> True
      | RunGeneration i decision env mid now \<Rightarrow>
          \<not> isl (fst (generate_agent_reply ul env mid decision))
      | _ \<Rightarrow> False)"

definition agent_appends :: "(ustring \<Rightarrow> ustring) \<Rightarrow> op \<Rightarrow> bool" where
  "agent_appends ul op =
     (case op of
        RunGeneration i decision env mid now \<Rightarrow>
          \<not> isl (fst (generate_agent_reply ul env mid decision))
      | _ \<Rightarrow> False)"

definition generation_of :: "nat \<Rightarrow> op \<Rightarrow> bool" where
  "generation_of i op =
     (case op of RunGeneration j decision env mid now \<Rightarrow> j = i | _ \<Rightarrow> False)"

definition user_message :: chat_message where
  "user_message = \<lparr>msg_id = ''u1'', author_type = ''user'', author_id = None,
     author_name = u ''user'', content = u ''hello'', msg_target_message_id = None,
     msg_target_author_name = None\<rparr>"

definition const_stream :: "ustring list \<Rightarrow> exc option \<Rightarrow> nat \<Rightarrow> ustring list \<times> exc option" where
  "const_stream tokens ending n = (tokens, ending)"

definition stream_env :: "ustring list \<Rightarrow> exc option \<Rightarrow> reply_env" where
  "stream_env tokens ending = \<lparr>astream = const_stream tokens ending, cancel_at_emit = None,
     cancel_in_sleep = False, cancel_in_notify = False\<rparr>"

definition three_replies :: "op list" where
  "three_replies =
     [AppendIncoming user_message 1,
      RunGeneration 0 (comment_on None) (stream_env [u ''one''] None) ''m1'' 2,
      Wait 0 False,
      RunGeneration 1 (comment_on None) (stream_env [u ''two''] None) ''m2'' 3,
      RunGeneration 0 (comment_on None) (stream_env [u ''three''] None) ''m3'' 14]"

definition cap_reached :: "session_config \<Rightarrow> orchestrator \<Rightarrow> bool" where
  "cap_reached cfg st \<longleftrightarrow>
     max_total_ai_messages cfg > 0 \<and> total_ai_messages st \<ge> max_total_ai_messages cfg"

definition pause_expired :: "session_config \<Rightarrow> real \<Rightarrow> orchestrator \<Rightarrow> bool" where
  "pause_expired cfg now st \<longleftrightarrow>
     generation_paused st \<and> pause_timeout_seconds cfg > 0
     \<and> (case paused_since st of
          None \<Rightarrow> False
        | Some since \<Rightarrow> now - since \<ge> real_of_int (pause_timeout_seconds cfg))"

definition silence_expired :: "session_config \<Rightarrow> real \<Rightarrow> orchestrator \<Rightarrow> bool" where
  "silence_expired cfg now st \<longleftrightarrow>
     \<not> generation_paused st
     \<and> now - last_activity_at st \<ge> real_of_int (silence_end_seconds cfg)
     \<and> generation_tasks st = {} \<and> pending_decisions st = 0"

definition cancelled_reply :: "op list" where
  "cancelled_reply =
     [TrySpeak 0 (comment_on (Some (u ''first''))) 100,
      RunGeneration 0 (comment_on (Some (u ''first''))) (stream_env [] (Some CancelledError))
        ''m1'' (201 / 2)]"

definition spoke_at :: "(ustring \<Rightarrow> ustring) \<Rightarrow> nat \<Rightarrow> op \<Rightarrow> real option" where
  "spoke_at ul i op =
     (case op of
        RunGeneration j decision env mid now \<Rightarrow>
          if j = i \<and> \<not> isl (fst (generate_agent_reply ul env mid decision)) then Some now
          else None
      | _ \<Rightarrow> None)"

fun last_reply_at :: "(ustring \<Rightarrow> ustring) \<Rightarrow> nat \<Rightarrow> op list \<Rightarrow> real option" where
  "last_reply_at ul i [] = None"
| "last_reply_at ul i (op # ops) =
     (case last_reply_at ul i ops of Some t \<Rightarrow> Some t | None \<Rightarrow> spoke_at ul i op)"

definition reply_then_cancelled :: "op list" where
  "reply_then_cancelled =
     [RunGeneration 0 (comment_on None) (stream_env [u ''one''] None) ''m1'' 101,
      Wait 0 False,
      AppendIncoming user_message 103,
      RunGeneration 0 (comment_on None) (stream_env [] (Some CancelledError)) ''m2'' 105]"

text \<open>Words for the statements about the reply stage, and concrete runs.\<close>

fun delta_text :: "event \<Rightarrow> ustring" where
  "delta_text (MessageDelta mid t) = t"
| "delta_text ev = []"

definition is_delta :: "event \<Rightarrow> bool" where
  "is_delta ev = (case ev of MessageDelta mid t \<Rightarrow> True | _ \<Rightarrow> False)"

definition is_cancelled :: "event \<Rightarrow> bool" where
  "is_cancelled ev = (case ev of MessageCancelled mid t \<Rightarrow> True | _ \<Rightarrow> False)"

definition is_error :: "event \<Rightarrow> bool" where
  "is_error ev = (case ev of ErrorEvent mid t \<Rightarrow> True | _ \<Rightarrow> False)"

text \<open>
  \<open>extends st st'\<close>: from \<open>st\<close> to \<open>st'\<close> only \<open>message_delta\<close> events were emitted,
  and \<open>full_content\<close> grew by their texts.
\<close>

definition extends :: "reply_state \<Rightarrow> reply_state \<Rightarrow> bool" where
  "extends st st' \<longleftrightarrow>
     prefix (emitted st) (emitted st')
     \<and> list_all is_delta (drop (length (emitted st)) (emitted st'))
     \<and> full_content st' =
         full_content st @ concat (map delta_text (drop (length (emitted st)) (emitted st')))"

definition transient_exception :: "(ustring \<Rightarrow> ustring) \<Rightarrow> exc option \<Rightarrow> bool" where
  "transient_exception ul r =
     (case r of Some (Exception t) \<Rightarrow> is_transient_timeout_error ul t | _ \<Rightarrow> False)"

text \<open>
  The local variables where the \<open>for\<close> loop is entered (line 154), when no cancellation
  came before: \<open>message_started\<close> was emitted, and the mention prefix if there is one.
\<close>

definition loop_entry :: "string \<Rightarrow> agent_decision \<Rightarrow> reply_state" where
  "loop_entry mid d =
     reply_state0\<lparr>
       emitted := (if mention_target d = [] then [MessageStarted mid]
                   else [MessageStarted mid,
                         MessageDelta mid (mention_prefix_of (mention_target d))]),
       full_content := mention_prefix_of (mention_target d),
       output_started := (mention_target d \<noteq> []),
       mention_guard_resolved := (mention_target d = [])\<rparr>"

text \<open>The calls of \<open>emit\<close> before the outer \<open>try\<close> (lines 115-143).\<close>

definition pre_emits :: "agent_decision \<Rightarrow> nat" where
  "pre_emits d = (if mention_target d = [] then 1 else 2)"

definition cancelled_before_stream :: "reply_env \<Rightarrow> agent_decision \<Rightarrow> bool" where
  "cancelled_before_stream env d =
     (case cancel_at_emit env of None \<Rightarrow> False | Some k \<Rightarrow> k < pre_emits d)"

text \<open>
  The condition under which the first pass of the loop is followed by a second one
  (lines 200-213), for the loop entered in state \<open>st\<close>.
\<close>

definition retried ::
  "(ustring \<Rightarrow> ustring) \<Rightarrow> reply_env \<Rightarrow> string \<Rightarrow> ustring \<Rightarrow> reply_state \<Rightarrow> bool" where
  "retried ul env mid name st \<longleftrightarrow>
     transient_exception ul (fst (run_attempt env mid name 0 st))
     \<and> strip (full_content (snd (run_attempt env mid name 0 st))) = []
     \<and> \<not> cancel_in_sleep env"

text \<open>The first pass of the \<open>for\<close> loop, and the whole loop.\<close>

definition first_attempt :: "reply_env \<Rightarrow> string \<Rightarrow> agent_decision \<Rightarrow> exc option \<times> reply_state" where
  "first_attempt env mid d = run_attempt env mid (mention_target d) 0 (loop_entry mid d)"


text \<open>
  The text that \<open>_consume_leading_duplicate_mention\<close> leaves of what follows the
  mention: whitespace, then at most one of the four separators, then whitespace again
  are dropped.
\<close>

definition after_mention :: "ustring \<Rightarrow> ustring" where
  "after_mention s =
     (if take 1 (lstrip s) \<in> set [[44], [65292], [58], [65306]]
      then lstrip (drop 1 (lstrip s)) else lstrip s)"

definition reply_to :: "ustring \<Rightarrow> agent_decision" where
  "reply_to name = \<lparr>action = REPLY_AI, reason = None, target_message_id = Some ''t1'',
     target_author_name = Some name, stance = None, key_points = None\<rparr>"

definition blank_then_timeout :: "nat \<Rightarrow> ustring list \<times> exc option" where
  "blank_then_timeout n =
     (if n = 0 then ([[10]], Some (Exception (u ''Request timeout''))) else ([u ''ok''], None))"

definition retried_env :: reply_env where
  "retried_env = \<lparr>astream = blank_then_timeout, cancel_at_emit = None,
     cancel_in_sleep = False, cancel_in_notify = False\<rparr>"



definition failing_env :: reply_env where
  "failing_env = stream_env [u ''par''] (Some (Exception (u ''boom'')))"

section \<open>Pacing: properties\<close>

lemma deque_append_length: "length xs \<le> n \<Longrightarrow> length (deque_append n x xs) \<le> n"
  by (simp add: deque_append_def Let_def)

lemma deque_append_room: "length xs < n \<Longrightarrow> deque_append n x xs = xs @ [x]"
  by (simp add: deque_append_def Let_def)

lemma deque_append_full: "length xs = n \<Longrightarrow> 0 < n \<Longrightarrow> deque_append n x xs = tl xs @ [x]"
  by (cases xs) (simp_all add: deque_append_def Let_def)

lemma deque_append_set: "set (deque_append n x xs) \<subseteq> insert x (set xs)"
  by (auto simp: deque_append_def Let_def dest: in_set_dropD)

lemma deque_append_shape:
  "length xs \<le> n \<Longrightarrow> 0 < n \<Longrightarrow>
     deque_append n x xs = (if length xs < n then xs @ [x] else tl xs @ [x])"
  by (simp add: deque_append_room deque_append_full)

lemma approve_speech_eq:
  "approve_speech ul cfg i d now st =
     (if pacing_blocked cfg i now st
         \<or> (normalized_key_points ul d \<noteq> []
            \<and> normalized_key_points ul d \<in> set (recent_key_points st))
      then (False, st)
      else (True,
            st\<lparr>last_global_speak_at := now,
               recent_key_points :=
                 (if normalized_key_points ul d \<noteq> []
                  then deque_append 8 (normalized_key_points ul d) (recent_key_points st)
                  else recent_key_points st)\<rparr>))"
  by (simp add: approve_speech_def pacing_blocked_def Let_def)

text \<open>
  Claim C4, as the code has it. In a state whose key-point buffer holds no empty string
  and at most 8 entries (every state an execution reaches), \<open>_approve_speech\<close>
  rejects exactly when the agent cooldown has not elapsed, or a positive global interval
  has not elapsed, or a positive cap on the agent messages is reached, or the trimmed
  and lowercased key-point string is already in the buffer. A rejection changes nothing.
  An approval records the current time as the last global speak time and pushes the
  key-point string if it is not empty, dropping the oldest entry of a full buffer; an
  empty key-point string is not pushed. The buffer keeps at most 8 entries.
\<close>

theorem approve_speech_pacing:
  assumes "[] \<notin> set (recent_key_points st)" and "length (recent_key_points st) \<le> 8"
  shows "(fst (approve_speech ul cfg i d now st) \<longleftrightarrow>
            \<not> (pacing_blocked cfg i now st
               \<or> normalized_key_points ul d \<in> set (recent_key_points st)))
       \<and> (\<not> fst (approve_speech ul cfg i d now st) \<longrightarrow> snd (approve_speech ul cfg i d now st) = st)
       \<and> (fst (approve_speech ul cfg i d now st) \<longrightarrow>
            snd (approve_speech ul cfg i d now st) =
              st\<lparr>last_global_speak_at := now,
                 recent_key_points :=
                   (if normalized_key_points ul d = [] then recent_key_points st
                    else if length (recent_key_points st) < 8
                         then recent_key_points st @ [normalized_key_points ul d]
                         else tl (recent_key_points st) @ [normalized_key_points ul d])\<rparr>)
       \<and> length (recent_key_points (snd (approve_speech ul cfg i d now st))) \<le> 8
       \<and> [] \<notin> set (recent_key_points (snd (approve_speech ul cfg i d now st)))"
proof -
  let ?kp = "normalized_key_points ul d"
  let ?r = "recent_key_points st"
  have shape: "deque_append 8 ?kp ?r = (if length ?r < 8 then ?r @ [?kp] else tl ?r @ [?kp])"
    using assms(2) by (intro deque_append_shape) simp_all
  have len: "length (deque_append 8 ?kp ?r) \<le> 8"
    using assms(2) by (rule deque_append_length)
  have ne: "[] \<notin> set (deque_append 8 ?kp ?r)" if "?kp \<noteq> []"
    using that assms(1) deque_append_set [of 8 ?kp ?r] by auto
  have member: "?kp = [] \<Longrightarrow> ?kp \<notin> set ?r"
    using assms(1) by simp
  show ?thesis
  proof (cases "pacing_blocked cfg i now st \<or> (?kp \<noteq> [] \<and> ?kp \<in> set ?r)")
    case True
    then show ?thesis
      using assms member by (auto simp: approve_speech_eq)
  next
    case False
    then have eq: "approve_speech ul cfg i d now st =
        (True, st\<lparr>last_global_speak_at := now,
                  recent_key_points := (if ?kp \<noteq> [] then deque_append 8 ?kp ?r else ?r)\<rparr>)"
      by (simp add: approve_speech_eq)
    show ?thesis
    proof (cases "?kp = []")
      case True
      with False eq assms show ?thesis by simp
    next
      case kp: False
      with False have "?kp \<notin> set ?r" by simp
      with False kp eq len ne [OF kp] show ?thesis
        by (simp add: shape [symmetric])
    qed
  qed
qed

text \<open>
  Claim C10. When the key-point string of a decision is absent, or empty once trimmed
  and lowercased, the approval is decided by the cooldown, the global interval and the
  cap alone, the key-point buffer is left as it was, and the same decision is approved
  again whenever those three allow it.
\<close>

theorem approve_speech_empty_key_points:
  assumes "normalized_key_points ul d = []"
  shows "(fst (approve_speech ul cfg i d now st) \<longleftrightarrow> \<not> pacing_blocked cfg i now st)
       \<and> recent_key_points (snd (approve_speech ul cfg i d now st)) = recent_key_points st
       \<and> (fst (approve_speech ul cfg i d now st) \<longrightarrow>
            (fst (approve_speech ul cfg i d now' (snd (approve_speech ul cfg i d now st)))
               \<longleftrightarrow> \<not> pacing_blocked cfg i now' (st\<lparr>last_global_speak_at := now\<rparr>)))"
  using assms by (simp add: approve_speech_eq)

lemma nkp_none: "normalized_key_points ul (comment_on None) = []"
  by (simp add: normalized_key_points_def comment_on_def or_empty_def strip_def lstrip_def rstrip_def lower_def)

lemma nkp_blank: "normalized_key_points ul (comment_on (Some (u ''  ''))) = []"
  by (simp add: normalized_key_points_def comment_on_def or_empty_def strip_def lstrip_def rstrip_def lower_def u_def isspace_def)

lemma nkp_ai: "normalized_key_points ul (comment_on (Some (u '' AI Safety ''))) = u ''ai safety''"
  by (simp add: normalized_key_points_def comment_on_def or_empty_def strip_def lstrip_def rstrip_def lower_def u_def isspace_def ascii_lower_def)

text \<open>
  Claim C4 as worded, that every approval pushes the key-point string: a decision
  without key points is approved on a fresh orchestrator and nothing is pushed.
\<close>

theorem approve_speech_key_points_counterexample:
  "fst (approve_speech id example_cfg 0 (comment_on None) 100 (create_orchestrator example_info))
   \<and> recent_key_points (snd (approve_speech id example_cfg 0 (comment_on None) 100
        (create_orchestrator example_info)))
     \<noteq> deque_append 8 (normalized_key_points id (comment_on None))
         (recent_key_points (create_orchestrator example_info))"
  by (simp add: approve_speech_def nkp_none create_orchestrator_def example_cfg_def new_agent_state_def deque_append_def)

theorem approve_speech_pacing_witness:
  "[] \<notin> set (recent_key_points (create_orchestrator example_info))
   \<and> length (recent_key_points (create_orchestrator example_info)) \<le> 8
   \<and> fst (approve_speech id example_cfg 0 (comment_on (Some (u '' AI Safety ''))) 100
        (create_orchestrator example_info))
   \<and> recent_key_points (snd (approve_speech id example_cfg 0
        (comment_on (Some (u '' AI Safety ''))) 100 (create_orchestrator example_info)))
     = [u ''ai safety'']"
proof -
  let ?st = "create_orchestrator example_info"
  let ?d = "comment_on (Some (u '' AI Safety ''))"
  have r: "recent_key_points ?st = []"
    by (simp add: create_orchestrator_def)
  have h1: "[] \<notin> set (recent_key_points ?st)" and h2: "length (recent_key_points ?st) \<le> 8"
    by (simp_all add: r)
  have nb: "\<not> pacing_blocked example_cfg 0 100 ?st"
    by (simp add: pacing_blocked_def create_orchestrator_def example_cfg_def new_agent_state_def)
  have ne: "u ''ai safety'' \<noteq> []"
    by (simp add: u_def)
  note T = approve_speech_pacing [OF h1 h2, of id example_cfg 0 ?d 100]
  from T nb have a: "fst (approve_speech id example_cfg 0 ?d 100 ?st)"
    by (simp add: r)
  with T have "snd (approve_speech id example_cfg 0 ?d 100 ?st) =
      ?st\<lparr>last_global_speak_at := 100, recent_key_points := [u ''ai safety'']\<rparr>"
    by (simp add: r nkp_ai ne)
  then have "recent_key_points (snd (approve_speech id example_cfg 0 ?d 100 ?st)) = [u ''ai safety'']"
    by simp
  with h1 h2 a show ?thesis by blast
qed

theorem approve_speech_empty_key_points_witness:
  "normalized_key_points id (comment_on (Some (u ''  ''))) = []
   \<and> fst (approve_speech id example_cfg 0 (comment_on (Some (u ''  ''))) 100
        (create_orchestrator example_info))
   \<and> fst (approve_speech id example_cfg 0 (comment_on (Some (u ''  ''))) 101
        (snd (approve_speech id example_cfg 0 (comment_on (Some (u ''  ''))) 100
           (create_orchestrator example_info))))
   \<and> recent_key_points (snd (approve_speech id example_cfg 0 (comment_on (Some (u ''  ''))) 100
        (create_orchestrator example_info))) = []"
proof -
  let ?st = "create_orchestrator example_info"
  let ?d = "comment_on (Some (u ''  ''))"
  have h: "normalized_key_points id ?d = []"
    by (rule nkp_blank)
  have nb: "\<not> pacing_blocked example_cfg 0 100 ?st"
    by (simp add: pacing_blocked_def create_orchestrator_def example_cfg_def new_agent_state_def)
  have nb': "\<not> pacing_blocked example_cfg 0 101 (?st\<lparr>last_global_speak_at := 100\<rparr>)"
    by (simp add: pacing_blocked_def create_orchestrator_def example_cfg_def new_agent_state_def)
  have r: "recent_key_points ?st = []"
    by (simp add: create_orchestrator_def)
  note T = approve_speech_empty_key_points [OF h, of example_cfg 0 100 ?st 101]
  from T nb have a: "fst (approve_speech id example_cfg 0 ?d 100 ?st)" by simp
  from T a nb' have b: "fst (approve_speech id example_cfg 0 ?d 101
      (snd (approve_speech id example_cfg 0 ?d 100 ?st)))" by simp
  from T r have c: "recent_key_points (snd (approve_speech id example_cfg 0 ?d 100 ?st)) = []"
    by simp
  from h a b c show ?thesis by blast
qed

section \<open>Decision stage: properties\<close>

declare decide_loop.simps [simp del]

lemma missing_structured_response_not_transient:
  "\<not> is_transient_timeout_error ul missing_structured_response"
  by (simp add: is_transient_timeout_error_def missing_structured_response_def lower_def
      u_def ascii_lower_def)

lemma decide_loop_3: "decide_loop ul env (Suc (Suc (Suc 0))) tr = (Inr silent_decision, tr)"
  by (simp add: decide_loop.simps decision_max_attempts_def)

lemma decide_loop_2:
  "decide_loop ul env (Suc (Suc 0)) tr =
     (case ainvoke env (Suc (Suc 0)) of
        Structured d \<Rightarrow> (Inr d, tr @ [Invoke (Suc (Suc 0))])
      | NoStructured \<Rightarrow> (Inr silent_decision, tr @ [Invoke (Suc (Suc 0))])
      | Raises CancelledError \<Rightarrow> (Inl CancelledError, tr @ [Invoke (Suc (Suc 0))])
      | Raises (Exception t) \<Rightarrow> (Inr silent_decision, tr @ [Invoke (Suc (Suc 0))]))"
  by (subst decide_loop.simps)
     (simp add: decision_max_attempts_def Let_def split: invoke_outcome.split exc.split)

lemma decide_loop_1:
  "decide_loop ul env (Suc 0) tr =
     (case ainvoke env (Suc 0) of
        Structured d \<Rightarrow> (Inr d, tr @ [Invoke (Suc 0)])
      | NoStructured \<Rightarrow> (Inr silent_decision, tr @ [Invoke (Suc 0)])
      | Raises CancelledError \<Rightarrow> (Inl CancelledError, tr @ [Invoke (Suc 0)])
      | Raises (Exception t) \<Rightarrow>
          if is_transient_timeout_error ul t then
            (if sleep_cancelled env (Suc 0)
             then (Inl CancelledError, tr @ [Invoke (Suc 0), Sleep (0.8 * 2)])
             else decide_loop ul env (Suc (Suc 0)) (tr @ [Invoke (Suc 0), Sleep (0.8 * 2)]))
          else (Inr silent_decision, tr @ [Invoke (Suc 0)]))"
  by (subst decide_loop.simps)
     (simp add: decision_max_attempts_def Let_def missing_structured_response_not_transient
        split: invoke_outcome.split exc.split)

lemma decide_loop_0:
  "decide_loop ul env 0 tr =
     (case ainvoke env 0 of
        Structured d \<Rightarrow> (Inr d, tr @ [Invoke 0])
      | NoStructured \<Rightarrow> (Inr silent_decision, tr @ [Invoke 0])
      | Raises CancelledError \<Rightarrow> (Inl CancelledError, tr @ [Invoke 0])
      | Raises (Exception t) \<Rightarrow>
          if is_transient_timeout_error ul t then
            (if sleep_cancelled env 0 then (Inl CancelledError, tr @ [Invoke 0, Sleep 0.8])
             else decide_loop ul env (Suc 0) (tr @ [Invoke 0, Sleep 0.8]))
          else (Inr silent_decision, tr @ [Invoke 0]))"
  by (subst decide_loop.simps)
     (simp add: decision_max_attempts_def Let_def missing_structured_response_not_transient
        split: invoke_outcome.split exc.split)

lemmas decide_unfold = decide_agent_action_def decide_loop_0 decide_loop_1 decide_loop_2

lemma decide_invocations:
  "filter is_invoke (snd (decide_agent_action ul env))
     = map Invoke [0..<length (filter is_invoke (snd (decide_agent_action ul env)))]
   \<and> 1 \<le> length (filter is_invoke (snd (decide_agent_action ul env)))
   \<and> length (filter is_invoke (snd (decide_agent_action ul env))) \<le> 3"
  by (simp add: decide_unfold is_invoke_def split: invoke_outcome.split exc.split)

lemma decide_retry_only_on_timeout:
  "Invoke (Suc n) \<in> set (snd (decide_agent_action ul env)) \<Longrightarrow>
     transient_failure ul (ainvoke env n) \<and> \<not> sleep_cancelled env n
     \<and> Sleep (0.8 * real (Suc n)) \<in> set (snd (decide_agent_action ul env))"
  by (auto simp: decide_unfold transient_failure_def failure_text_def
      split: invoke_outcome.splits exc.splits if_splits)

lemma decide_no_error: "fst (decide_agent_action ul env) \<noteq> Inl (Exception t)"
  by (simp add: decide_unfold split: invoke_outcome.split exc.split)

lemma decide_failure_silent:
  "Invoke n \<in> set (snd (decide_agent_action ul env)) \<Longrightarrow>
   failure_text (ainvoke env n) \<noteq> None \<Longrightarrow>
   \<not> transient_failure ul (ainvoke env n) \<or> n = 2 \<Longrightarrow>
     fst (decide_agent_action ul env) = Inr silent_decision"
  by (auto simp: decide_unfold transient_failure_def failure_text_def numeral_2_eq_2
      split: invoke_outcome.splits exc.splits if_splits)

lemma decide_cancelled:
  "Invoke n \<in> set (snd (decide_agent_action ul env)) \<Longrightarrow>
   ainvoke env n = Raises CancelledError \<Longrightarrow>
     fst (decide_agent_action ul env) = Inl CancelledError
     \<and> last (snd (decide_agent_action ul env)) = Invoke n"
  by (auto simp: decide_unfold split: invoke_outcome.splits exc.splits if_splits)

lemma decide_sleep_cancelled:
  "Sleep (0.8 * real (Suc n)) \<in> set (snd (decide_agent_action ul env)) \<Longrightarrow>
   sleep_cancelled env n \<Longrightarrow>
     fst (decide_agent_action ul env) = Inl CancelledError
     \<and> last (snd (decide_agent_action ul env)) = Sleep (0.8 * real (Suc n))"
  by (auto simp: decide_unfold split: invoke_outcome.splits exc.splits if_splits)

lemma decide_structured:
  "Invoke n \<in> set (snd (decide_agent_action ul env)) \<Longrightarrow>
   ainvoke env n = Structured d \<Longrightarrow>
     fst (decide_agent_action ul env) = Inr d"
  by (auto simp: decide_unfold split: invoke_outcome.splits exc.splits if_splits)

text \<open>
  Claim C7. \<open>decide_agent_action\<close> calls the generation service at most 3 times. A
  further call is made only after a failure classified as a transient timeout, after a
  sleep of 0.8 s times the number of the attempt. Any other failure, a response without
  a structured decision included, and a failure of the third attempt give the silent
  decision; no error leaves the stage. A cancellation, during a call or during a sleep,
  leaves the stage at once as \<open>CancelledError\<close>, with no further call.
\<close>

theorem decide_agent_action_retries:
  "length (filter is_invoke (snd (decide_agent_action ul env))) \<le> 3
   \<and> (Invoke (Suc n) \<in> set (snd (decide_agent_action ul env)) \<longrightarrow>
        transient_failure ul (ainvoke env n) \<and> \<not> sleep_cancelled env n
        \<and> Sleep (0.8 * real (Suc n)) \<in> set (snd (decide_agent_action ul env)))
   \<and> fst (decide_agent_action ul env) \<noteq> Inl (Exception t)
   \<and> (Invoke n \<in> set (snd (decide_agent_action ul env))
        \<and> failure_text (ainvoke env n) \<noteq> None
        \<and> (\<not> transient_failure ul (ainvoke env n) \<or> n = 2) \<longrightarrow>
        fst (decide_agent_action ul env) = Inr silent_decision)
   \<and> \<not> transient_failure ul NoStructured
   \<and> (Invoke n \<in> set (snd (decide_agent_action ul env))
        \<and> ainvoke env n = Raises CancelledError \<longrightarrow>
        fst (decide_agent_action ul env) = Inl CancelledError
        \<and> last (snd (decide_agent_action ul env)) = Invoke n)
   \<and> (Sleep (0.8 * real (Suc n)) \<in> set (snd (decide_agent_action ul env))
        \<and> sleep_cancelled env n \<longrightarrow>
        fst (decide_agent_action ul env) = Inl CancelledError
        \<and> last (snd (decide_agent_action ul env)) = Sleep (0.8 * real (Suc n)))"
proof -
  have "\<not> transient_failure ul NoStructured"
    by (simp add: transient_failure_def failure_text_def missing_structured_response_not_transient)
  then show ?thesis
    using decide_invocations [of ul env] decide_retry_only_on_timeout [of n ul env]
      decide_no_error [of ul env t] decide_failure_silent [of n ul env]
      decide_cancelled [of n ul env] decide_sleep_cancelled [of n ul env]
    by blast
qed

theorem decide_agent_action_retries_witness:
  "snd (decide_agent_action id timeout_then_reply) = [Invoke 0, Sleep 0.8, Invoke (Suc 0)]
   \<and> fst (decide_agent_action id timeout_then_reply) = Inr (comment_on None)
   \<and> transient_failure id (ainvoke timeout_then_reply 0)
   \<and> \<not> sleep_cancelled timeout_then_reply 0"
proof -
  have tr: "decide_agent_action id timeout_then_reply
      = (Inr (comment_on None), [Invoke 0, Sleep 0.8, Invoke (Suc 0)])"
    by (simp add: decide_unfold timeout_then_reply_def timeout_first_def never_cancelled_def
        is_transient_timeout_error_def lower_def u_def ascii_lower_def)
  then have "Invoke (Suc 0) \<in> set (snd (decide_agent_action id timeout_then_reply))"
    by simp
  with decide_agent_action_retries [of id timeout_then_reply 0]
  have "transient_failure id (ainvoke timeout_then_reply 0)
      \<and> \<not> sleep_cancelled timeout_then_reply 0"
    by blast
  with tr show ?thesis by simp
qed

section \<open>The orchestrator: properties\<close>

lemma generate_reply_log:
  "messages (snd (generate_reply ul env mid now i d st)) =
     (if isl (fst (generate_agent_reply ul env mid d)) then messages st
      else messages st @
        [\<lparr>msg_id = fst (projr (fst (generate_agent_reply ul env mid d))), author_type = ''ai'',
          author_id = Some (agent_id (info (agents st i))),
          author_name = nickname (info (agents st i)),
          content = snd (projr (fst (generate_agent_reply ul env mid d))),
          msg_target_message_id = target_message_id d,
          msg_target_author_name = target_author_name d\<rparr>])
   \<and> message_version (snd (generate_reply ul env mid now i d st)) =
       (if isl (fst (generate_agent_reply ul env mid d)) then message_version st
        else message_version st + 1)
   \<and> total_ai_messages (snd (generate_reply ul env mid now i d st)) =
       (if isl (fst (generate_agent_reply ul env mid d)) then total_ai_messages st
        else total_ai_messages st + 1)
   \<and> last_activity_at (snd (generate_reply ul env mid now i d st)) =
       (if isl (fst (generate_agent_reply ul env mid d)) then last_activity_at st else now)
   \<and> agents (snd (generate_reply ul env mid now i d st)) =
       (if isl (fst (generate_agent_reply ul env mid d)) then agents st
        else (agents st)(i := (agents st i)\<lparr>last_spoke_at := now\<rparr>))"
  by (cases "generate_agent_reply ul env mid d")
     (auto simp: generate_reply_def add_message_def Let_def split: sum.splits prod.splits)

lemma shutdown_log:
  "messages (shutdown r e now st) = messages st
   \<and> message_version (shutdown r e now st) = message_version st
   \<and> agents (shutdown r e now st) = agents st
   \<and> total_ai_messages (shutdown r e now st) = total_ai_messages st"
  by (simp add: shutdown_def stop_def Let_def)

lemma approve_speech_log:
  "messages (snd (approve_speech ul cfg i d now st)) = messages st
   \<and> message_version (snd (approve_speech ul cfg i d now st)) = message_version st
   \<and> agents (snd (approve_speech ul cfg i d now st)) = agents st
   \<and> total_ai_messages (snd (approve_speech ul cfg i d now st)) = total_ai_messages st"
  by (simp add: approve_speech_def Let_def)

lemma try_speak_log:
  "messages (snd (try_speak ul cfg i d now st)) = messages st
   \<and> message_version (snd (try_speak ul cfg i d now st)) = message_version st
   \<and> agents (snd (try_speak ul cfg i d now st)) = agents st
   \<and> total_ai_messages (snd (try_speak ul cfg i d now st)) = total_ai_messages st"
  using approve_speech_log [of ul cfg i d now st]
  by (cases "approve_speech ul cfg i d now st") (auto simp: try_speak_def split: bool.splits)

lemma monitor_tick_log:
  "messages (monitor_tick cfg now t st) = messages st
   \<and> message_version (monitor_tick cfg now t st) = message_version st
   \<and> agents (monitor_tick cfg now t st) = agents st
   \<and> total_ai_messages (monitor_tick cfg now t st) = total_ai_messages st"
  by (simp add: monitor_tick_def shutdown_log split: option.split)

lemma end_decision_log:
  "messages (snd (end_decision i outcome st)) = messages st
   \<and> message_version (snd (end_decision i outcome st)) = message_version st
   \<and> agents (snd (end_decision i outcome st)) = agents st
   \<and> total_ai_messages (snd (end_decision i outcome st)) = total_ai_messages st"
  by (simp add: end_decision_def Let_def split: sum.split exc.split)

lemma wait_log:
  "messages (snd (wait_for_new_message i timed_out st)) = messages st
   \<and> message_version (snd (wait_for_new_message i timed_out st)) = message_version st
   \<and> total_ai_messages (snd (wait_for_new_message i timed_out st)) = total_ai_messages st
   \<and> last_spoke_at (agents (snd (wait_for_new_message i timed_out st)) j)
       = last_spoke_at (agents st j)
   \<and> last_seen_message_version (agents st j)
       \<le> last_seen_message_version (agents (snd (wait_for_new_message i timed_out st)) j)"
  by (simp add: wait_for_new_message_def Let_def)

lemma step_log:
  "(appends ul op \<longrightarrow>
      (\<exists>m. messages (step ul cfg op st) = messages st @ [m])
      \<and> message_version (step ul cfg op st) = message_version st + 1)
   \<and> (\<not> appends ul op \<longrightarrow>
      messages (step ul cfg op st) = messages st
      \<and> message_version (step ul cfg op st) = message_version st)"
proof (cases op)
  case (RunGeneration i d env mid now)
  then show ?thesis
    using generate_reply_log [of ul env mid now i d st]
    by (simp add: appends_def run_generation_def Let_def)
qed (simp_all add: appends_def start_runtime_def clear_pause_def stop_def append_incoming_def
      add_message_def shutdown_log wait_log begin_decision_def end_decision_log try_speak_log
      monitor_tick_log)

lemma step_version:
  "message_version (step ul cfg op st) =
     message_version st + (if appends ul op then 1 else 0)"
  using step_log [of ul op cfg st] by simp

lemma step_length:
  "length (messages (step ul cfg op st)) =
     length (messages st) + (if appends ul op then 1 else 0)"
  using step_log [of ul op cfg st] by auto

lemma step_prefix: "prefix (messages st) (messages (step ul cfg op st))"
  using step_log [of ul op cfg st] by (cases "appends ul op") auto

lemma step_total:
  "total_ai_messages (step ul cfg op st) =
     (if agent_appends ul op then total_ai_messages st + 1 else total_ai_messages st)"
proof (cases op)
  case (RunGeneration i d env mid now)
  then show ?thesis
    using generate_reply_log [of ul env mid now i d st]
    by (simp add: agent_appends_def run_generation_def Let_def)
qed (simp_all add: agent_appends_def start_runtime_def clear_pause_def stop_def
      append_incoming_def add_message_def shutdown_log wait_log begin_decision_def
      end_decision_log try_speak_log monitor_tick_log)

lemma step_last_seen:
  "last_seen_message_version (agents st j)
     \<le> last_seen_message_version (agents (step ul cfg op st) j)"
proof (cases op)
  case (RunGeneration i d env mid now)
  then show ?thesis
    using generate_reply_log [of ul env mid now i d st]
    by (simp add: run_generation_def Let_def)
qed (simp_all add: start_runtime_def clear_pause_def stop_def append_incoming_def
      add_message_def shutdown_log wait_log begin_decision_def end_decision_log try_speak_log
      monitor_tick_log)

lemma step_last_spoke_at:
  "last_spoke_at (agents (step ul cfg op st) j) =
     (case spoke_at ul j op of None \<Rightarrow> last_spoke_at (agents st j) | Some t \<Rightarrow> t)"
proof (cases op)
  case (RunGeneration i d env mid now)
  then show ?thesis
    using generate_reply_log [of ul env mid now i d st]
    by (simp add: run_generation_def Let_def spoke_at_def)
qed (simp_all add: start_runtime_def clear_pause_def stop_def append_incoming_def
      add_message_def shutdown_log wait_log begin_decision_def end_decision_log try_speak_log
      monitor_tick_log spoke_at_def)

lemma run_Nil: "run ul cfg [] st = st"
  by (simp add: run_def)

lemma run_Cons: "run ul cfg (op # ops) st = run ul cfg ops (step ul cfg op st)"
  by (simp add: run_def)

lemma run_version:
  "message_version (run ul cfg ops st) = message_version st + int (length (filter (appends ul) ops))"
  by (induction ops arbitrary: st) (simp_all add: run_Nil run_Cons step_version)

lemma run_length:
  "length (messages (run ul cfg ops st)) = length (messages st) + length (filter (appends ul) ops)"
  by (induction ops arbitrary: st) (simp_all add: run_Nil run_Cons step_length)

lemma run_prefix: "prefix (messages st) (messages (run ul cfg ops st))"
proof (induction ops arbitrary: st)
  case Nil
  show ?case by (simp add: run_Nil)
next
  case (Cons op ops)
  from step_prefix [of st ul cfg op] Cons [of "step ul cfg op st"] show ?case
    by (auto simp: run_Cons intro: prefix_order.trans)
qed

lemma run_total:
  "total_ai_messages (run ul cfg ops st) =
     total_ai_messages st + int (length (filter (agent_appends ul) ops))"
  by (induction ops arbitrary: st) (simp_all add: run_Nil run_Cons step_total)

lemma run_last_seen:
  "last_seen_message_version (agents st j)
     \<le> last_seen_message_version (agents (run ul cfg ops st) j)"
proof (induction ops arbitrary: st)
  case Nil
  show ?case by (simp add: run_Nil)
next
  case (Cons op ops)
  from step_last_seen [of st j ul cfg op] Cons [of "step ul cfg op st"]
  show ?case by (simp add: run_Cons)
qed

lemma run_last_spoke_at:
  "last_spoke_at (agents (run ul cfg ops st) j) =
     (case last_reply_at ul j ops of None \<Rightarrow> last_spoke_at (agents st j) | Some t \<Rightarrow> t)"
  by (induction ops arbitrary: st)
     (simp_all add: run_Nil run_Cons step_last_spoke_at split: option.splits)

lemma stream_env_reply:
  "generate_agent_reply ul (stream_env [tok] None) mid (comment_on None) =
     (if tok = [] then (Inr (mid, []), reply_state0\<lparr>emitted := [MessageStarted mid],
          mention_guard_resolved := True, astream_calls := 1\<rparr>)
      else (Inr (mid, tok), reply_state0\<lparr>emitted := [MessageStarted mid, MessageDelta mid tok],
          full_content := tok, mention_guard_resolved := True, output_started := True,
          astream_calls := 1\<rparr>))"
  by (subst stream_with_retry.simps | simp add: generate_agent_reply_def emit_def reply_state0_def
      mention_target_def mention_prefix_of_def comment_on_def stream_env_def const_stream_def
      max_attempts_def run_attempt_def guard_token_def)+

text \<open>
  Claim C9. In every execution from a new orchestrator the log version equals the
  length of the messages list, which is the number of appends performed. A piece of code
  that appends adds one message at the end and increases the version by one; every
  other piece leaves both as they are, so the version never decreases and the history
  is only ever extended. The version last seen by a worker never decreases, in one step
  or over an execution.
\<close>

theorem message_log_version:
  "message_version (run ul cfg ops (create_orchestrator infos))
     = int (length (messages (run ul cfg ops (create_orchestrator infos))))
   \<and> length (messages (run ul cfg ops (create_orchestrator infos)))
       = length (filter (appends ul) ops)
   \<and> (appends ul op \<longrightarrow>
        (\<exists>m. messages (step ul cfg op st) = messages st @ [m])
        \<and> message_version (step ul cfg op st) = message_version st + 1)
   \<and> (\<not> appends ul op \<longrightarrow>
        messages (step ul cfg op st) = messages st
        \<and> message_version (step ul cfg op st) = message_version st)
   \<and> prefix (messages st) (messages (run ul cfg ops st))
   \<and> message_version st \<le> message_version (run ul cfg ops st)
   \<and> last_seen_message_version (agents st i)
       \<le> last_seen_message_version (agents (step ul cfg op st) i)
   \<and> last_seen_message_version (agents st i)
       \<le> last_seen_message_version (agents (run ul cfg ops st) i)"
proof -
  have "message_version (run ul cfg ops (create_orchestrator infos))
      = int (length (messages (run ul cfg ops (create_orchestrator infos))))"
    and "length (messages (run ul cfg ops (create_orchestrator infos)))
      = length (filter (appends ul) ops)"
    using run_version [of ul cfg ops "create_orchestrator infos"]
      run_length [of ul cfg ops "create_orchestrator infos"]
    by (simp_all add: create_orchestrator_def)
  moreover have "message_version st \<le> message_version (run ul cfg ops st)"
    by (simp add: run_version)
  ultimately show ?thesis
    using step_log [of ul op cfg st] run_prefix [of st ul cfg ops]
      step_last_seen [of st i ul cfg op] run_last_seen [of st i ul cfg ops]
    by blast
qed

lemma appends_three_replies: "filter (appends ul) three_replies =
     [AppendIncoming user_message 1,
      RunGeneration 0 (comment_on None) (stream_env [u ''one''] None) ''m1'' 2,
      RunGeneration 1 (comment_on None) (stream_env [u ''two''] None) ''m2'' 3,
      RunGeneration 0 (comment_on None) (stream_env [u ''three''] None) ''m3'' 14]"
  by (simp add: three_replies_def appends_def stream_env_reply)

theorem message_log_version_witness:
  "appends id (AppendIncoming user_message 1)
   \<and> message_version (step id example_cfg (AppendIncoming user_message 1)
        (create_orchestrator example_info)) = 1
   \<and> message_version (run id example_cfg three_replies (create_orchestrator example_info)) = 4
   \<and> length (messages (run id example_cfg three_replies (create_orchestrator example_info))) = 4"
proof -
  have a: "appends id (AppendIncoming user_message 1)"
    by (simp add: appends_def)
  note T = message_log_version [of id example_cfg three_replies example_info
      "AppendIncoming user_message 1" "create_orchestrator example_info" 0]
  from T a have "message_version (step id example_cfg (AppendIncoming user_message 1)
        (create_orchestrator example_info)) = 1"
    by (simp add: create_orchestrator_def)
  moreover from T have
    "length (messages (run id example_cfg three_replies (create_orchestrator example_info))) = 4"
    by (simp add: appends_three_replies)
  moreover from T have
    "message_version (run id example_cfg three_replies (create_orchestrator example_info)) = 4"
    by (simp add: appends_three_replies)
  ultimately show ?thesis using a by simp
qed

lemma shutdown_ends:
  "\<not> ended st \<Longrightarrow>
     ended (shutdown r True t st) \<and> end_reason (shutdown r True t st) = Some r
     \<and> events (shutdown r True t st) = events st @ [SessionEnded r]"
  by (simp add: shutdown_def stop_def Let_def)

lemma monitor_tick_cases:
  "monitor_tick cfg now t st =
     (if cap_reached cfg st then shutdown ''max_total_ai_messages'' True t st
      else if pause_expired cfg now st then shutdown ''pause_timeout'' True t st
      else if silence_expired cfg now st then shutdown ''silence_timeout'' True t st
      else st)"
  by (auto simp: monitor_tick_def cap_reached_def pause_expired_def silence_expired_def
      split: option.splits)

text \<open>
  Claim C8. One pass of the monitor over a session that has not ended: if the cap on
  agent messages is reached the session ends with reason \<open>max_total_ai_messages\<close>;
  else, if it is paused and a positive pause timeout has elapsed, with reason
  \<open>pause_timeout\<close>; else, if it is not paused, the silence timeout has elapsed, no
  generation is in flight and no decision is pending, with reason
  \<open>silence_timeout\<close>; else it goes on unchanged. With a cap of 3, after any execution
  in which three agent messages were appended, the next pass ends the session with reason
  \<open>max_total_ai_messages\<close>.
\<close>

theorem monitor_tick_order:
  assumes "\<not> ended st"
  shows "(cap_reached cfg st \<longrightarrow>
            ended (monitor_tick cfg now t st)
            \<and> end_reason (monitor_tick cfg now t st) = Some ''max_total_ai_messages'')
       \<and> (\<not> cap_reached cfg st \<and> pause_expired cfg now st \<longrightarrow>
            ended (monitor_tick cfg now t st)
            \<and> end_reason (monitor_tick cfg now t st) = Some ''pause_timeout'')
       \<and> (\<not> cap_reached cfg st \<and> \<not> pause_expired cfg now st \<and> silence_expired cfg now st \<longrightarrow>
            ended (monitor_tick cfg now t st)
            \<and> end_reason (monitor_tick cfg now t st) = Some ''silence_timeout'')
       \<and> (\<not> cap_reached cfg st \<and> \<not> pause_expired cfg now st \<and> \<not> silence_expired cfg now st \<longrightarrow>
            monitor_tick cfg now t st = st)
       \<and> (max_total_ai_messages cfg = 3
            \<and> st = run ul cfg ops (create_orchestrator infos)
            \<and> 3 \<le> length (filter (agent_appends ul) ops) \<longrightarrow>
            ended (monitor_tick cfg now t st)
            \<and> end_reason (monitor_tick cfg now t st) = Some ''max_total_ai_messages'')"
proof -
  have "cap_reached cfg st"
    if "max_total_ai_messages cfg = 3" "st = run ul cfg ops (create_orchestrator infos)"
      "3 \<le> length (filter (agent_appends ul) ops)"
    using that run_total [of ul cfg ops "create_orchestrator infos"]
    by (simp add: cap_reached_def create_orchestrator_def)
  then show ?thesis
    using assms shutdown_ends [OF assms] by (auto simp: monitor_tick_cases)
qed

lemma agent_appends_three_replies: "length (filter (agent_appends ul) three_replies) = 3"
  by (simp add: three_replies_def agent_appends_def stream_env_reply)

lemma step_ended:
  "ended (step ul cfg op st) \<longleftrightarrow>
     ended st \<or> (case op of Shutdown r e t \<Rightarrow> True
                 | MonitorTick now t \<Rightarrow> ended (monitor_tick cfg now t st)
                 | _ \<Rightarrow> False)"
proof (cases op)
  case (RunGeneration i d env mid now)
  then show ?thesis
    by (cases "generate_agent_reply ul env mid d")
       (auto simp: run_generation_def generate_reply_def add_message_def Let_def
          split: sum.splits prod.splits)
next
  case (TrySpeak i d now)
  then show ?thesis
    by (cases "approve_speech ul cfg i d now st")
       (auto simp: try_speak_def approve_speech_def Let_def split: bool.splits if_splits)
next
  case (MonitorTick now t)
  then show ?thesis
    by (auto simp: monitor_tick_cases shutdown_def)
qed (auto simp: start_runtime_def clear_pause_def stop_def append_incoming_def
      add_message_def shutdown_def wait_for_new_message_def begin_decision_def end_decision_def
      Let_def split: sum.splits exc.splits)

lemma three_replies_running:
  "\<not> ended (run ul cfg three_replies (create_orchestrator infos))"
  by (simp add: three_replies_def run_Cons run_Nil step_ended create_orchestrator_def
      del: step.simps)

theorem monitor_tick_order_witness:
  "\<not> ended (run id example_cfg three_replies (create_orchestrator example_info))
   \<and> cap_reached example_cfg (run id example_cfg three_replies (create_orchestrator example_info))
   \<and> ended (monitor_tick example_cfg 15 15
        (run id example_cfg three_replies (create_orchestrator example_info)))
   \<and> end_reason (monitor_tick example_cfg 15 15
        (run id example_cfg three_replies (create_orchestrator example_info)))
       = Some ''max_total_ai_messages''"
proof -
  let ?st = "run id example_cfg three_replies (create_orchestrator example_info)"
  have h: "\<not> ended ?st"
    by (rule three_replies_running)
  have c: "cap_reached example_cfg ?st"
    by (simp add: cap_reached_def run_total agent_appends_three_replies example_cfg_def
        create_orchestrator_def)
  have m: "max_total_ai_messages example_cfg = 3"
    by (simp add: example_cfg_def)
  have n: "3 \<le> length (filter (agent_appends id) three_replies)"
    by (simp add: agent_appends_three_replies)
  from monitor_tick_order [OF h, of example_cfg 15 15 id three_replies example_info] m n
  have "ended (monitor_tick example_cfg 15 15 ?st)
      \<and> end_reason (monitor_tick example_cfg 15 15 ?st) = Some ''max_total_ai_messages''"
    by blast
  with h c show ?thesis by blast
qed

lemma cancelled_stream_reply:
  "generate_agent_reply ul (stream_env [] (Some CancelledError)) mid (comment_on kp) =
     (Inl CancelledError,
      reply_state0\<lparr>emitted := [MessageStarted mid, MessageCancelled mid []],
        mention_guard_resolved := True, astream_calls := 1\<rparr>)"
  by (subst stream_with_retry.simps | simp add: generate_agent_reply_def emit_def reply_state0_def
      mention_target_def mention_prefix_of_def comment_on_def stream_env_def const_stream_def
      max_attempts_def run_attempt_def guard_token_def)+

lemma nkp_first: "normalized_key_points ul (comment_on (Some (u ''first''))) = u ''first''"
  by (simp add: normalized_key_points_def comment_on_def or_empty_def strip_def lstrip_def
      rstrip_def lower_def u_def isspace_def ascii_lower_def)

lemma nkp_second: "normalized_key_points ul (comment_on (Some (u ''second''))) = u ''second''"
  by (simp add: normalized_key_points_def comment_on_def or_empty_def strip_def lstrip_def
      rstrip_def lower_def u_def isspace_def ascii_lower_def)

lemma example_cfg_fields:
  "agent_cooldown_seconds example_cfg = 10"
  "global_speak_interval_seconds example_cfg = 0"
  "silence_end_seconds example_cfg = 15"
  "max_total_ai_messages example_cfg = 3"
  "pause_timeout_seconds example_cfg = 600"
  by (simp_all add: example_cfg_def)

text \<open>
  Claim C5 as worded: with a cooldown of 10 s and no global interval, an agent is
  approved at time 100, its generation is cancelled, and it is approved again at time
  101.
\<close>

theorem approvals_within_cooldown_counterexample:
  "fst (approve_speech id example_cfg 0 (comment_on (Some (u ''first''))) 100
      (create_orchestrator example_info))
   \<and> fst (approve_speech id example_cfg 0 (comment_on (Some (u ''second''))) 101
      (run id example_cfg cancelled_reply (create_orchestrator example_info)))
   \<and> (101 :: real) - 100 < agent_cooldown_seconds example_cfg"
proof -
  have a: "fst (approve_speech id example_cfg 0 (comment_on (Some (u ''first''))) 100
      (create_orchestrator example_info))"
    by (simp add: approve_speech_def normalized_key_points_def comment_on_def or_empty_def
        strip_def lstrip_def rstrip_def lower_def u_def isspace_def ascii_lower_def
        create_orchestrator_def example_cfg_def new_agent_state_def Let_def)
  have b: "fst (approve_speech id example_cfg 0 (comment_on (Some (u ''second''))) 101
      (run id example_cfg cancelled_reply (create_orchestrator example_info)))"
    by (simp add: cancelled_reply_def run_def try_speak_def approve_speech_def
        normalized_key_points_def comment_on_def or_empty_def strip_def lstrip_def rstrip_def
        lower_def u_def isspace_def ascii_lower_def deque_append_def run_generation_def
        generate_reply_def cancelled_stream_reply [unfolded comment_on_def]
        create_orchestrator_def example_cfg_def new_agent_state_def reply_state0_def Let_def)
  from a b show ?thesis
    by (simp add: example_cfg_fields)
qed


lemma approve_speech_cooldown:
  "fst (approve_speech ul cfg i d now st) \<Longrightarrow>
     agent_cooldown_seconds cfg \<le> now - last_spoke_at (agents st i)"
  by (simp add: approve_speech_eq pacing_blocked_def split: if_splits)

lemma last_reply_at_example: "last_reply_at id 0 reply_then_cancelled = Some 101"
  by (simp add: reply_then_cancelled_def spoke_at_def stream_env_reply cancelled_stream_reply)

lemma agent_appends_example: "length (filter (agent_appends id) reply_then_cancelled) = 1"
  by (simp add: reply_then_cancelled_def agent_appends_def stream_env_reply
      cancelled_stream_reply)

text \<open>
  Claim C5, as the code has it. Only a reply of the agent that is appended sets the time
  \<open>last_spoke_at\<close> of the agent, to the time of the append; nothing else changes it,
  and a generation that is cancelled leaves it alone. So after any execution
  \<open>last_spoke_at\<close> is the time \<open>last_reply_at\<close> of the most recent appended reply
  of the agent, or what it was before when the execution appended none. Every approval
  of the agent, in every state an execution reaches, comes at least
  \<open>agent_cooldown_seconds\<close> after that time. Hence two approvals of one agent, at
  \<open>t1\<close> and at \<open>t2\<close>, between which a reply of the agent is appended, the most recent
  at a time \<open>t'\<close> with \<open>t1 \<le> t'\<close>, are at least the cooldown apart, whatever else
  happened in between, cancelled generations of the agent included.
\<close>

theorem approval_after_cooldown:
  "last_spoke_at (agents (run ul cfg ops st) i) =
     (case last_reply_at ul i ops of None \<Rightarrow> last_spoke_at (agents st i) | Some t \<Rightarrow> t)
   \<and> (\<not> agent_appends ul (RunGeneration i d0 env mid t0) \<longrightarrow>
        last_spoke_at (agents (step ul cfg (RunGeneration i d0 env mid t0) st) i)
          = last_spoke_at (agents st i))
   \<and> (fst (approve_speech ul cfg i d now st) \<longrightarrow>
        agent_cooldown_seconds cfg \<le> now - last_spoke_at (agents st i))
   \<and> (fst (approve_speech ul cfg i d now (run ul cfg ops st)) \<longrightarrow>
        agent_cooldown_seconds cfg \<le> now -
          (case last_reply_at ul i ops of None \<Rightarrow> last_spoke_at (agents st i)
           | Some t \<Rightarrow> t))
   \<and> (fst (approve_speech ul cfg i d1 t1 st)
        \<and> last_reply_at ul i ops = Some t' \<and> t1 \<le> t'
        \<and> fst (approve_speech ul cfg i d2 t2
             (run ul cfg ops (snd (approve_speech ul cfg i d1 t1 st)))) \<longrightarrow>
      agent_cooldown_seconds cfg \<le> t2 - t' \<and> agent_cooldown_seconds cfg \<le> t2 - t1)"
proof -
  have a: "last_spoke_at (agents (run ul cfg ops st) i) =
     (case last_reply_at ul i ops of None \<Rightarrow> last_spoke_at (agents st i) | Some t \<Rightarrow> t)"
    by (rule run_last_spoke_at)
  have b: "last_spoke_at (agents (step ul cfg (RunGeneration i d0 env mid t0) st) i)
          = last_spoke_at (agents st i)"
    if "\<not> agent_appends ul (RunGeneration i d0 env mid t0)"
    using that step_last_spoke_at [of ul cfg "RunGeneration i d0 env mid t0" st i]
    by (simp add: spoke_at_def agent_appends_def del: step.simps)
  have c: "agent_cooldown_seconds cfg \<le> now - last_spoke_at (agents st i)"
    if "fst (approve_speech ul cfg i d now st)"
    using that by (rule approve_speech_cooldown)
  have d: "agent_cooldown_seconds cfg \<le> now -
          (case last_reply_at ul i ops of None \<Rightarrow> last_spoke_at (agents st i)
           | Some t \<Rightarrow> t)"
    if "fst (approve_speech ul cfg i d now (run ul cfg ops st))"
    using approve_speech_cooldown [OF that] by (simp add: run_last_spoke_at)
  have e: "agent_cooldown_seconds cfg \<le> t2 - t' \<and> agent_cooldown_seconds cfg \<le> t2 - t1"
    if "last_reply_at ul i ops = Some t'" and "t1 \<le> t'"
      and "fst (approve_speech ul cfg i d2 t2
             (run ul cfg ops (snd (approve_speech ul cfg i d1 t1 st))))"
    using approve_speech_cooldown [OF that(3)] that(1) that(2)
    by (simp add: run_last_spoke_at)
  from a b c d e show ?thesis by blast
qed

theorem approval_after_cooldown_witness:
  "fst (approve_speech id example_cfg 0 (comment_on None) 100 (create_orchestrator example_info))
   \<and> last_reply_at id 0 reply_then_cancelled = Some 101
   \<and> fst (approve_speech id example_cfg 0 (comment_on None) 111
        (run id example_cfg reply_then_cancelled
          (snd (approve_speech id example_cfg 0 (comment_on None) 100
            (create_orchestrator example_info)))))
   \<and> agent_cooldown_seconds example_cfg \<le> 111 - 101
   \<and> agent_cooldown_seconds example_cfg \<le> 111 - 100"
proof -
  let ?init = "create_orchestrator example_info"
  let ?approved = "snd (approve_speech id example_cfg 0 (comment_on None) 100 ?init)"
  let ?final = "run id example_cfg reply_then_cancelled ?approved"
  have f1: "fst (approve_speech id example_cfg 0 (comment_on None) 100 ?init)"
    by (simp add: approve_speech_eq nkp_none pacing_blocked_def example_cfg_fields
        create_orchestrator_def new_agent_state_def)
  have ls: "last_spoke_at (agents ?final 0) = 101"
    by (simp add: run_last_spoke_at last_reply_at_example)
  have tot: "total_ai_messages ?final = 1"
    using approve_speech_log [of id example_cfg 0 "comment_on None" 100 ?init]
    by (simp add: run_total agent_appends_example create_orchestrator_def)
  have g: "fst (approve_speech id example_cfg 0 (comment_on None) 111 s)"
    if "last_spoke_at (agents s 0) = 101" and "total_ai_messages s = 1" for s
    using that by (simp add: approve_speech_eq nkp_none pacing_blocked_def example_cfg_fields)
  have f2: "fst (approve_speech id example_cfg 0 (comment_on None) 111 ?final)"
    using ls tot by (rule g)
  from approval_after_cooldown [where ul = id and cfg = example_cfg and i = 0
      and ?d1.0 = "comment_on None" and ?t1.0 = 100 and t' = 101
      and ops = reply_then_cancelled and ?d2.0 = "comment_on None" and ?t2.0 = 111
      and st = ?init] f1 last_reply_at_example f2
  have "agent_cooldown_seconds example_cfg \<le> 111 - 101
      \<and> agent_cooldown_seconds example_cfg \<le> 111 - 100"
    by simp
  with f1 last_reply_at_example f2 show ?thesis by blast
qed

section \<open>The reply stage: properties\<close>

declare stream_with_retry.simps [simp del]

lemma extendsI:
  "emitted st' = emitted st @ ds \<Longrightarrow> list_all is_delta ds \<Longrightarrow>
   full_content st' = full_content st @ concat (map delta_text ds) \<Longrightarrow> extends st st'"
  by (simp add: extends_def)

lemma extendsE:
  assumes "extends st st'"
  obtains ds where "emitted st' = emitted st @ ds" "list_all is_delta ds"
    "full_content st' = full_content st @ concat (map delta_text ds)"
proof -
  from assms obtain ds where "emitted st' = emitted st @ ds"
    by (auto simp: extends_def prefix_def)
  with assms that show thesis
    by (auto simp: extends_def)
qed

lemma extends_refl: "extends st st"
  by (rule extendsI [of _ _ "[]"]) simp_all

lemma extends_same:
  "emitted st' = emitted st \<Longrightarrow> full_content st' = full_content st \<Longrightarrow> extends st st'"
  by (rule extendsI [of _ _ "[]"]) simp_all

lemma extends_trans:
  assumes "extends a b" "extends b c"
  shows "extends a c"
proof -
  from assms(1) obtain d1 where 1: "emitted b = emitted a @ d1" "list_all is_delta d1"
    "full_content b = full_content a @ concat (map delta_text d1)"
    by (rule extendsE)
  from assms(2) obtain d2 where 2: "emitted c = emitted b @ d2" "list_all is_delta d2"
    "full_content c = full_content b @ concat (map delta_text d2)"
    by (rule extendsE)
  show ?thesis
    by (rule extendsI [of _ _ "d1 @ d2"]) (simp_all add: 1 2)
qed

lemma emit_snd: "snd (emit env ev st) = st\<lparr>emitted := emitted st @ [ev]\<rparr>"
  by (simp add: emit_def)

lemma emit_fst:
  "fst (emit env ev st) =
     (if cancel_at_emit env = Some (length (emitted st)) then Some CancelledError else None)"
  by (simp add: emit_def)

lemma extends_emit_delta:
  "emitted st1 = emitted st \<Longrightarrow> full_content st1 = full_content st @ t \<Longrightarrow>
     extends st (snd (emit env (MessageDelta mid t) st1))"
  by (rule extendsI [of _ _ "[MessageDelta mid t]"]) (simp_all add: emit_snd is_delta_def)

lemma guard_token_fields:
  "emitted (fst (guard_token name token st)) = emitted st
   \<and> full_content (fst (guard_token name token st)) = full_content st
   \<and> astream_calls (fst (guard_token name token st)) = astream_calls st"
  by (simp add: guard_token_def Let_def)

lemma consume_stream_extends:
  "extends st (snd (consume_stream env mid name toks st))
   \<and> astream_calls (snd (consume_stream env mid name toks st)) = astream_calls st
   \<and> (fst (consume_stream env mid name toks st) = None
       \<or> fst (consume_stream env mid name toks st) = Some CancelledError
          \<and> cancel_at_emit env \<noteq> None)"
proof (induction toks arbitrary: st)
  case Nil
  show ?case by (simp add: extends_refl)
next
  case (Cons token rest)
  show ?case
  proof (cases "token = []")
    case True
    with Cons [of st] show ?thesis by simp
  next
    case False
    obtain st1 out skip where g: "guard_token name token st = (st1, out, skip)"
      by (cases "guard_token name token st")
    with guard_token_fields [of name token st]
    have f: "emitted st1 = emitted st" "full_content st1 = full_content st"
      "astream_calls st1 = astream_calls st"
      by simp_all
    show ?thesis
    proof (cases skip)
      case True
      from f have "extends st st1" by (simp add: extends_same)
      with Cons [of st1] False g True f show ?thesis
        by (auto intro: extends_trans)
    next
      case ns: False
      show ?thesis
      proof (cases "out = []")
        case True
        let ?s = "st1\<lparr>output_started := True\<rparr>"
        from f have "extends st ?s" by (simp add: extends_same)
        with Cons [of ?s] False g ns True f show ?thesis
          by (auto intro: extends_trans)
      next
        case ne: False
        let ?s = "st1\<lparr>output_started := True, full_content := full_content st1 @ out\<rparr>"
        let ?e = "emit env (MessageDelta mid out) ?s"
        have ex: "extends st (snd ?e)"
          by (rule extends_emit_delta) (simp_all add: f)
        have ac: "astream_calls (snd ?e) = astream_calls st"
          by (simp add: emit_snd f)
        obtain r s2 where e: "?e = (r, s2)"
          by (cases ?e)
        show ?thesis
        proof (cases r)
          case None
          then have "consume_stream env mid name (token # rest) st =
              consume_stream env mid name rest s2"
            using False g ns ne e by simp
          with Cons [of s2] ex ac e show ?thesis
            by (auto intro: extends_trans)
        next
          case (Some x)
          with e have "fst ?e = Some x" by simp
          then have x: "x = CancelledError" "cancel_at_emit env \<noteq> None"
            by (auto simp: emit_fst split: if_splits)
          from Some have "consume_stream env mid name (token # rest) st = (Some x, s2)"
            using False g ns ne e by simp
          with ex ac x e show ?thesis by simp
        qed
      qed
    qed
  qed
qed

lemma run_attempt_extends:
  "extends st (snd (run_attempt env mid name attempt st))
   \<and> astream_calls (snd (run_attempt env mid name attempt st)) = Suc (astream_calls st)"
proof -
  let ?s0 = "st\<lparr>astream_calls := astream_calls st + 1\<rparr>"
  let ?c = "consume_stream env mid name (fst (astream env attempt)) ?s0"
  have s0: "extends st ?s0" by (simp add: extends_same)
  from consume_stream_extends [of ?s0 env mid name "fst (astream env attempt)"]
  have c: "extends ?s0 (snd ?c)" "astream_calls (snd ?c) = Suc (astream_calls st)"
    by simp_all
  let ?f = "(snd ?c)\<lparr>output_started := True,
      full_content := full_content (snd ?c) @ mention_guard_buffer (snd ?c)\<rparr>"
  let ?e = "emit env (MessageDelta mid (mention_guard_buffer (snd ?c))) ?f"
  have fl: "extends (snd ?c) (snd ?e)"
    by (rule extends_emit_delta) simp_all
  have fl': "extends (snd ?c) ((snd ?e)\<lparr>mention_guard_resolved := True\<rparr>)"
    using fl by (rule extends_trans) (simp add: extends_same)
  have r: "snd (run_attempt env mid name attempt st) = snd ?c
      \<or> snd (run_attempt env mid name attempt st) = snd ?e
      \<or> snd (run_attempt env mid name attempt st) = (snd ?e)\<lparr>mention_guard_resolved := True\<rparr>"
    by (auto simp: run_attempt_def split: prod.splits option.splits)
  from r show ?thesis
  proof (elim disjE)
    assume "snd (run_attempt env mid name attempt st) = snd ?c"
    with s0 c show ?thesis by (auto intro: extends_trans)
  next
    assume "snd (run_attempt env mid name attempt st) = snd ?e"
    with s0 c fl show ?thesis by (auto intro: extends_trans simp: emit_snd)
  next
    assume "snd (run_attempt env mid name attempt st) = (snd ?e)\<lparr>mention_guard_resolved := True\<rparr>"
    with s0 c fl' show ?thesis by (auto intro: extends_trans simp: emit_snd)
  qed
qed

lemma stream_with_retry_1:
  "stream_with_retry ul env mid name (Suc 0) st = run_attempt env mid name (Suc 0) st"
  by (subst stream_with_retry.simps)
     (simp add: max_attempts_def Let_def split: prod.split option.split exc.split)

lemma stream_with_retry_0:
  "stream_with_retry ul env mid name 0 st =
     (if retried ul env mid name st
      then run_attempt env mid name (Suc 0) (snd (run_attempt env mid name 0 st))
      else if transient_exception ul (fst (run_attempt env mid name 0 st))
              \<and> strip (full_content (snd (run_attempt env mid name 0 st))) = []
      then (Some CancelledError, snd (run_attempt env mid name 0 st))
      else run_attempt env mid name 0 st)"
  by (subst stream_with_retry.simps)
     (simp add: max_attempts_def Let_def retried_def transient_exception_def stream_with_retry_1
        split: prod.split option.split exc.split)

lemma stream_with_retry_extends:
  "extends st (snd (stream_with_retry ul env mid name 0 st))
   \<and> astream_calls (snd (stream_with_retry ul env mid name 0 st)) =
       (if retried ul env mid name st then astream_calls st + 2 else astream_calls st + 1)"
  using run_attempt_extends [of st env mid name 0]
    run_attempt_extends [of "snd (run_attempt env mid name 0 st)" env mid name "Suc 0"]
  by (auto simp: stream_with_retry_0 intro: extends_trans)

lemma mention_prefix_empty: "mention_prefix_of name = [] \<longleftrightarrow> name = []"
  by (simp add: mention_prefix_of_def)

lemma gar_stream:
  "\<not> cancelled_before_stream env d \<Longrightarrow>
   generate_agent_reply ul env mid d =
     (case stream_with_retry ul env mid (mention_target d) 0 (loop_entry mid d) of
        (None, st4) \<Rightarrow> (Inr (mid, full_content st4), st4)
      | (Some CancelledError, st4) \<Rightarrow>
          (Inl CancelledError,
           st4\<lparr>emitted := emitted st4 @ [MessageCancelled mid (full_content st4)]\<rparr>)
      | (Some (Exception t), st4) \<Rightarrow>
          (if cancel_at_emit env = Some (length (emitted st4)) then Inl CancelledError
           else Inr (mid, full_content st4),
           st4\<lparr>emitted := emitted st4 @ [ErrorEvent mid t]\<rparr>))"
  by (cases "stream_with_retry ul env mid (mention_target d) 0 (loop_entry mid d)")
     (auto simp: generate_agent_reply_def cancelled_before_stream_def pre_emits_def emit_def
        loop_entry_def reply_state0_def mention_prefix_of_def Let_def
        split: option.splits exc.splits if_splits)

lemma gar_before:
  "cancelled_before_stream env d \<Longrightarrow>
   fst (generate_agent_reply ul env mid d) = Inl CancelledError
   \<and> prefix (emitted (snd (generate_agent_reply ul env mid d))) (emitted (loop_entry mid d))
   \<and> full_content (snd (generate_agent_reply ul env mid d))
       = concat (map delta_text (emitted (snd (generate_agent_reply ul env mid d))))
   \<and> astream_calls (snd (generate_agent_reply ul env mid d)) = 0"
  by (auto simp: generate_agent_reply_def cancelled_before_stream_def pre_emits_def emit_def
        loop_entry_def reply_state0_def mention_prefix_of_def Let_def
        split: option.splits exc.splits if_splits)

lemma loop_entry_fields:
  "full_content (loop_entry mid d) = concat (map delta_text (emitted (loop_entry mid d)))"
  "astream_calls (loop_entry mid d) = 0"
  "filter is_cancelled (emitted (loop_entry mid d)) = []"
  "filter is_error (emitted (loop_entry mid d)) = []"
  by (simp_all add: loop_entry_def reply_state0_def is_cancelled_def is_error_def
      mention_prefix_of_def)

lemma extends_events:
  assumes "extends st st'"
  shows "filter is_cancelled (emitted st') = filter is_cancelled (emitted st)"
    and "filter is_error (emitted st') = filter is_error (emitted st)"
    and "full_content st = concat (map delta_text (emitted st)) \<Longrightarrow>
         full_content st' = concat (map delta_text (emitted st'))"
proof -
  from assms obtain ds where ds: "emitted st' = emitted st @ ds" "list_all is_delta ds"
    "full_content st' = full_content st @ concat (map delta_text ds)"
    by (rule extendsE)
  have "filter is_cancelled ds = []" "filter is_error ds = []"
    using ds(2)
    by (auto simp: filter_empty_conv list_all_iff is_delta_def is_cancelled_def is_error_def
        split: event.splits)
  with ds show "filter is_cancelled (emitted st') = filter is_cancelled (emitted st)"
    and "filter is_error (emitted st') = filter is_error (emitted st)"
    and "full_content st = concat (map delta_text (emitted st)) \<Longrightarrow>
         full_content st' = concat (map delta_text (emitted st'))"
    by simp_all
qed


lemma dropWhile_all: "(\<forall>x \<in> set (dropWhile P s). P x) \<longleftrightarrow> dropWhile P s = []"
proof
  assume a: "\<forall>x \<in> set (dropWhile P s). P x"
  show "dropWhile P s = []"
  proof (rule ccontr)
    assume n: "dropWhile P s \<noteq> []"
    then have "\<not> P (hd (dropWhile P s))" by (rule hd_dropWhile)
    moreover from n have "hd (dropWhile P s) \<in> set (dropWhile P s)" by (rule hd_in_set)
    ultimately show False using a by blast
  qed
qed (auto dest: set_dropWhileD)

lemma strip_empty: "strip s = [] \<longleftrightarrow> list_all isspace s"
proof -
  have "strip s = [] \<longleftrightarrow> (\<forall>x \<in> set (dropWhile isspace s). isspace x)"
    by (simp add: strip_def rstrip_def lstrip_def dropWhile_eq_Nil_conv)
  also have "\<dots> \<longleftrightarrow> dropWhile isspace s = []"
    by (rule dropWhile_all)
  also have "\<dots> \<longleftrightarrow> list_all isspace s"
    by (simp add: dropWhile_eq_Nil_conv list_all_iff)
  finally show ?thesis .
qed

lemma not_transient_boom: "\<not> is_transient_timeout_error ul (u ''boom'')"
  by (simp add: is_transient_timeout_error_def lower_def u_def ascii_lower_def)

lemma transient_request_timeout: "is_transient_timeout_error ul (u ''Request timeout'')"
  by (simp add: is_transient_timeout_error_def lower_def u_def ascii_lower_def)

lemma gar_calls:
  "astream_calls (snd (generate_agent_reply ul env mid d)) =
     (if cancelled_before_stream env d then 0
      else if retried ul env mid (mention_target d) (loop_entry mid d) then 2 else 1)"
proof (cases "cancelled_before_stream env d")
  case True
  then show ?thesis by (simp add: gar_before)
next
  case False
  obtain r st4 where sw:
    "stream_with_retry ul env mid (mention_target d) 0 (loop_entry mid d) = (r, st4)"
    by (cases "stream_with_retry ul env mid (mention_target d) 0 (loop_entry mid d)")
  from stream_with_retry_extends [of "loop_entry mid d" ul env mid "mention_target d"] sw
  have c: "astream_calls st4 =
      (if retried ul env mid (mention_target d) (loop_entry mid d) then 2 else 1)"
    by (simp add: loop_entry_fields)
  from False sw have "astream_calls (snd (generate_agent_reply ul env mid d)) = astream_calls st4"
    by (simp add: gar_stream split: option.split exc.split)
  with c False show ?thesis by simp
qed

lemma first_attempt_content:
  "full_content (snd (first_attempt env mid d))
     = concat (map delta_text (emitted (snd (first_attempt env mid d))))
   \<and> prefix (mention_prefix_of (mention_target d)) (full_content (snd (first_attempt env mid d)))"
proof -
  from run_attempt_extends [of "loop_entry mid d" env mid "mention_target d" 0]
  have e: "extends (loop_entry mid d) (snd (first_attempt env mid d))"
    by (simp add: first_attempt_def)
  from extends_events(3) [OF e] have a: "full_content (snd (first_attempt env mid d))
     = concat (map delta_text (emitted (snd (first_attempt env mid d))))"
    by (simp add: loop_entry_fields)
  from e have "prefix (full_content (loop_entry mid d)) (full_content (snd (first_attempt env mid d)))"
    by (simp add: extends_def)
  then have "prefix (mention_prefix_of (mention_target d)) (full_content (snd (first_attempt env mid d)))"
    by (simp add: loop_entry_def reply_state0_def)
  with a show ?thesis by simp
qed

lemma mention_not_retried:
  assumes "mention_target d \<noteq> []"
  shows "\<not> retried ul env mid (mention_target d) (loop_entry mid d)"
proof -
  from first_attempt_content [of env mid d]
  have "prefix (mention_prefix_of (mention_target d)) (full_content (snd (first_attempt env mid d)))"
    by (rule conjunct2)
  with assms have "\<exists>rest. full_content (snd (first_attempt env mid d)) = 64 # rest"
    by (auto simp: mention_prefix_of_def prefix_def)
  then obtain rest where "full_content (snd (first_attempt env mid d)) = 64 # rest" ..
  then have "\<not> list_all isspace (full_content (snd (first_attempt env mid d)))"
    by (simp add: isspace_def)
  then show ?thesis
    by (simp add: retried_def strip_empty first_attempt_def)
qed

text \<open>
  Claim C6, as the code has it. The streaming call is made at most twice. It is made
  twice exactly when the run is not cancelled before the loop, the first call fails
  with a transient timeout, the text accumulated so far, which is the concatenation of
  the deltas emitted so far, the mention prefix included, holds nothing but whitespace,
  and no cancellation comes during the sleep. With a mention prefix the call is never
  made twice.
\<close>

theorem generate_agent_reply_retry:
  "astream_calls (snd (generate_agent_reply ul env mid d)) \<le> 2
   \<and> (astream_calls (snd (generate_agent_reply ul env mid d)) = 2 \<longleftrightarrow>
        \<not> cancelled_before_stream env d
        \<and> transient_exception ul (fst (first_attempt env mid d))
        \<and> list_all isspace (full_content (snd (first_attempt env mid d)))
        \<and> \<not> cancel_in_sleep env)
   \<and> full_content (snd (first_attempt env mid d))
        = concat (map delta_text (emitted (snd (first_attempt env mid d))))
   \<and> (mention_target d \<noteq> [] \<longrightarrow>
        astream_calls (snd (generate_agent_reply ul env mid d)) \<le> 1)"
proof -
  have r: "retried ul env mid (mention_target d) (loop_entry mid d) \<longleftrightarrow>
      transient_exception ul (fst (first_attempt env mid d))
      \<and> list_all isspace (full_content (snd (first_attempt env mid d)))
      \<and> \<not> cancel_in_sleep env"
    by (simp add: retried_def strip_empty first_attempt_def)
  have a: "astream_calls (snd (generate_agent_reply ul env mid d)) \<le> 2"
    by (simp add: gar_calls)
  have b: "astream_calls (snd (generate_agent_reply ul env mid d)) = 2 \<longleftrightarrow>
        \<not> cancelled_before_stream env d
        \<and> transient_exception ul (fst (first_attempt env mid d))
        \<and> list_all isspace (full_content (snd (first_attempt env mid d)))
        \<and> \<not> cancel_in_sleep env"
    unfolding r [symmetric] by (simp add: gar_calls)
  have c: "astream_calls (snd (generate_agent_reply ul env mid d)) \<le> 1"
    if "mention_target d \<noteq> []"
    using mention_not_retried [OF that, of ul env mid] by (simp add: gar_calls)
  from a b c first_attempt_content [of env mid d] show ?thesis by blast
qed

lemma retried_env_fields:
  "astream retried_env = blank_then_timeout"
  "cancel_at_emit retried_env = None"
  "cancel_in_sleep retried_env = False"
  "cancel_in_notify retried_env = False"
  by (simp_all add: retried_env_def)

lemma retried_env_reply:
  "generate_agent_reply id retried_env mid (comment_on None) =
     (Inr (mid, 10 # u ''ok''),
      \<lparr>full_content = 10 # u ''ok'', mention_guard_resolved = True,
       mention_guard_buffer = [], output_started = True,
       emitted = [MessageStarted mid, MessageDelta mid [10], MessageDelta mid (u ''ok'')],
       astream_calls = 2\<rparr>)"
proof -
  have s: "strip [10] = []"
    by (simp add: strip_empty isspace_def)
  have ne: "u ''ok'' \<noteq> []"
    by (simp add: u_def)
  let ?s0 = "\<lparr>full_content = [], mention_guard_resolved = True, mention_guard_buffer = [],
      output_started = False, emitted = [MessageStarted mid], astream_calls = 0\<rparr>"
  let ?s1 = "\<lparr>full_content = [10], mention_guard_resolved = True, mention_guard_buffer = [],
      output_started = True, emitted = [MessageStarted mid, MessageDelta mid [10]],
      astream_calls = Suc 0\<rparr>"
  let ?s2 = "\<lparr>full_content = 10 # u ''ok'', mention_guard_resolved = True,
       mention_guard_buffer = [], output_started = True,
       emitted = [MessageStarted mid, MessageDelta mid [10], MessageDelta mid (u ''ok'')],
       astream_calls = 2\<rparr>"
  have a0: "run_attempt retried_env mid [] 0 ?s0 =
      (Some (Exception (u ''Request timeout'')), ?s1)"
    by (simp add: run_attempt_def retried_env_fields blank_then_timeout_def guard_token_def
        emit_def)
  have a1: "run_attempt retried_env mid [] (Suc 0) ?s1 = (None, ?s2)"
    using ne by (simp add: run_attempt_def retried_env_fields blank_then_timeout_def
        guard_token_def emit_def)
  have r: "retried id retried_env mid [] ?s0"
    by (simp add: retried_def a0 transient_exception_def transient_request_timeout s
        retried_env_fields)
  have sw: "stream_with_retry id retried_env mid [] 0 ?s0 = (None, ?s2)"
    by (simp add: stream_with_retry_0 r a0 a1)
  show ?thesis
    by (simp add: generate_agent_reply_def emit_def mention_target_def mention_prefix_of_def
        comment_on_def retried_env_fields reply_state0_def sw)
qed

text \<open>
  Claim C6 as worded: a line feed is forwarded as a delta, the stream then fails with
  a transient timeout, and the streaming call is made a second time.
\<close>

theorem retry_after_output_counterexample:
  "emitted (snd (generate_agent_reply id retried_env ''m1'' (comment_on None))) =
     [MessageStarted ''m1'', MessageDelta ''m1'' [10], MessageDelta ''m1'' (u ''ok'')]
   \<and> astream_calls (snd (generate_agent_reply id retried_env ''m1'' (comment_on None))) = 2
   \<and> snd (astream retried_env 0) = Some (Exception (u ''Request timeout''))
   \<and> is_transient_timeout_error id (u ''Request timeout'')"
  by (simp add: retried_env_reply transient_request_timeout retried_env_fields
      blank_then_timeout_def)

theorem generate_agent_reply_retry_witness:
  "mention_target (reply_to (u ''Bob'')) \<noteq> []
   \<and> astream_calls (snd (generate_agent_reply id retried_env ''m1'' (reply_to (u ''Bob'')))) \<le> 1
   \<and> astream_calls (snd (generate_agent_reply id retried_env ''m1'' (comment_on None))) = 2
   \<and> list_all isspace (full_content (snd (first_attempt retried_env ''m1'' (comment_on None))))"
proof -
  have m: "mention_target (reply_to (u ''Bob'')) \<noteq> []"
    by (simp add: mention_target_def reply_to_def or_empty_def u_def)
  from generate_agent_reply_retry [of id retried_env "''m1''" "reply_to (u ''Bob'')"] m
  have a: "astream_calls (snd (generate_agent_reply id retried_env ''m1'' (reply_to (u ''Bob''))))
      \<le> 1"
    by blast
  have b: "astream_calls (snd (generate_agent_reply id retried_env ''m1'' (comment_on None))) = 2"
    by (simp add: retried_env_reply)
  with generate_agent_reply_retry [of id retried_env "''m1''" "comment_on None"]
  have "list_all isspace (full_content (snd (first_attempt retried_env ''m1'' (comment_on None))))"
    by blast
  with m a b show ?thesis by blast
qed

lemma stream_env_fields:
  "astream (stream_env tokens ending) n = (tokens, ending)"
  "cancel_at_emit (stream_env tokens ending) = None"
  "cancel_in_sleep (stream_env tokens ending) = False"
  "cancel_in_notify (stream_env tokens ending) = False"
  by (simp_all add: stream_env_def const_stream_def)

lemma failing_env_reply:
  "generate_agent_reply id failing_env mid (comment_on None) =
     (Inr (mid, u ''par''),
      \<lparr>full_content = u ''par'', mention_guard_resolved = True, mention_guard_buffer = [],
       output_started = True,
       emitted = [MessageStarted mid, MessageDelta mid (u ''par''), ErrorEvent mid (u ''boom'')],
       astream_calls = Suc 0\<rparr>)"
proof -
  have ne: "u ''par'' \<noteq> []"
    by (simp add: u_def)
  let ?s0 = "\<lparr>full_content = [], mention_guard_resolved = True, mention_guard_buffer = [],
      output_started = False, emitted = [MessageStarted mid], astream_calls = 0\<rparr>"
  let ?s1 = "\<lparr>full_content = u ''par'', mention_guard_resolved = True,
      mention_guard_buffer = [], output_started = True,
      emitted = [MessageStarted mid, MessageDelta mid (u ''par'')], astream_calls = Suc 0\<rparr>"
  have a0: "run_attempt failing_env mid [] 0 ?s0 = (Some (Exception (u ''boom'')), ?s1)"
    using ne by (simp add: run_attempt_def failing_env_def stream_env_fields guard_token_def
        emit_def)
  have sw: "stream_with_retry id failing_env mid [] 0 ?s0 = (Some (Exception (u ''boom'')), ?s1)"
    by (simp add: stream_with_retry_0 retried_def a0 transient_exception_def not_transient_boom)
  show ?thesis
    by (simp add: generate_agent_reply_def emit_def mention_target_def mention_prefix_of_def
        comment_on_def failing_env_def stream_env_fields reply_state0_def
        sw [unfolded failing_env_def])
qed

text \<open>
  Claim C1 at a concrete run: the stream yields \<open>par\<close> and then raises an exception
  that is neither a cancellation nor a timeout. \<open>generate_agent_reply\<close> emits the
  \<open>error\<close> event and returns, and \<open>_generate_reply\<close> appends the partial text as a
  message, counts it, sets both times and emits \<open>message_completed\<close>.
\<close>

theorem generate_reply_error_appends:
  "snd (astream failing_env 0) = Some (Exception (u ''boom''))
   \<and> fst (generate_reply id failing_env ''m1'' 7 0 (comment_on None)
        (create_orchestrator example_info)) = Inr ''m1''
   \<and> events (snd (generate_reply id failing_env ''m1'' 7 0 (comment_on None)
        (create_orchestrator example_info))) =
       [MessageStarted ''m1'', MessageDelta ''m1'' (u ''par''), ErrorEvent ''m1'' (u ''boom''),
        MessageCompleted ''m1'' (u ''par'')]
   \<and> map content (messages (snd (generate_reply id failing_env ''m1'' 7 0 (comment_on None)
        (create_orchestrator example_info)))) = [u ''par'']
   \<and> messages (create_orchestrator example_info) = []
   \<and> total_ai_messages (snd (generate_reply id failing_env ''m1'' 7 0 (comment_on None)
        (create_orchestrator example_info))) = 1
   \<and> total_ai_messages (create_orchestrator example_info) = 0
   \<and> last_spoke_at (agents (snd (generate_reply id failing_env ''m1'' 7 0 (comment_on None)
        (create_orchestrator example_info))) 0) = 7
   \<and> last_spoke_at (agents (create_orchestrator example_info) 0) = 0
   \<and> last_activity_at (snd (generate_reply id failing_env ''m1'' 7 0 (comment_on None)
        (create_orchestrator example_info))) = 7
   \<and> last_activity_at (create_orchestrator example_info) = 0"
  by (simp add: generate_reply_def failing_env_reply add_message_def create_orchestrator_def
      new_agent_state_def Let_def
      stream_env_fields [of "[u ''par'']" "Some (Exception (u ''boom''))", folded failing_env_def])











end
